theory Spec2Isabelle
  imports Main "HOL-Library.AList"
begin

section \<open>Entities (internal/entities/task.go)\<close>

text \<open>
  \<^verbatim>\<open>type TaskStatus string\<close> with its four constants, and the \<^verbatim>\<open>Task\<close> struct.
  Go's \<^verbatim>\<open>int64\<close> identifiers are integers; \<^verbatim>\<open>time.Time\<close> is a point on an integer
  time line.
\<close>

type_synonym TaskStatus = string

definition TaskStatusPending :: TaskStatus where
  "TaskStatusPending = ''pending''"

definition TaskStatusInProgress :: TaskStatus where
  "TaskStatusInProgress = ''in_progress''"

definition TaskStatusDone :: TaskStatus where
  "TaskStatusDone = ''done''"

definition TaskStatusCanceled :: TaskStatus where
  "TaskStatusCanceled = ''canceled''"

type_synonym time = int

record Task =
  ID :: int
  Title :: string
  Description :: string
  Status :: TaskStatus
  AssigneeID :: int
  CreatedAt :: time
  UpdatedAt :: time

text \<open>\<^verbatim>\<open>func (s TaskStatus) IsValid() bool\<close>: the switch over the four constants.\<close>

definition IsValid :: "TaskStatus \<Rightarrow> bool" where
  "IsValid s =
     (if s = TaskStatusPending \<or> s = TaskStatusInProgress
         \<or> s = TaskStatusDone \<or> s = TaskStatusCanceled
      then True else False)"

section \<open>Go's machine integers and \<^verbatim>\<open>strconv\<close>\<close>

text \<open>
  The service is built for a 64-bit target, so Go's \<^verbatim>\<open>int\<close> is a 64-bit two's
  complement integer. Values are kept as \<^typ>\<open>int\<close>; \<open>int64_wrap\<close> is the reduction
  every arithmetic result of type \<^verbatim>\<open>int\<close> or \<^verbatim>\<open>int64\<close> undergoes, \<open>uint64_wrap\<close> the
  one of type \<^verbatim>\<open>uint64\<close>.
\<close>

definition int64_wrap :: "int \<Rightarrow> int" where
  "int64_wrap x = signed_take_bit 63 x"

definition uint64_wrap :: "int \<Rightarrow> int" where
  "uint64_wrap x = take_bit 64 x"

definition MaxInt64 :: int where
  "MaxInt64 = 9223372036854775807"

definition MinInt64 :: int where
  "MinInt64 = - 9223372036854775808"

definition maxUint64 :: int where
  "maxUint64 = 18446744073709551615"

datatype NumError = ErrSyntax | ErrRange

definition is_digit :: "char \<Rightarrow> bool" where
  "is_digit c = (48 \<le> (of_char c :: nat) \<and> (of_char c :: nat) \<le> 57)"

definition digit_value :: "char \<Rightarrow> int" where
  "digit_value c = int (of_char c) - 48"

text \<open>
  The loop of \<^verbatim>\<open>strconv.ParseUint(s, 10, 64)\<close> over the bytes of \<open>s\<close>, from the left: a
  byte that is no decimal digit ends it with a syntax error and the value 0 (a letter
  has a digit value of 10 or more, which base 10 refuses; an underscore is accepted
  with base 0 only); a digit that would take \<open>n\<close> beyond 64 bits (\<^verbatim>\<open>n >= cutoff\<close>
  before the multiplication, \<^verbatim>\<open>n1 < n || n1 > maxVal\<close> after the addition) ends it
  with a range error and the largest value, whatever bytes follow.
\<close>

fun ParseUint_digits :: "string \<Rightarrow> int \<Rightarrow> int \<times> NumError option" where
  "ParseUint_digits [] n = (n, None)"
| "ParseUint_digits (c # s) n =
     (if \<not> is_digit c then (0, Some ErrSyntax)
      else if n \<ge> maxUint64 div 10 + 1 then (maxUint64, Some ErrRange)
      else
        (let n' = uint64_wrap (n * 10);
             n1 = uint64_wrap (n' + digit_value c)
         in if n1 < n' \<or> n1 > maxUint64 then (maxUint64, Some ErrRange)
            else ParseUint_digits s n1))"

definition ParseUint :: "string \<Rightarrow> int \<times> NumError option" where
  "ParseUint s = (if s = [] then (0, Some ErrSyntax) else ParseUint_digits s 0)"

text \<open>
  \<^verbatim>\<open>strconv.ParseInt(s, 10, 64)\<close>: the sign is picked off, the rest is read by
  \<^verbatim>\<open>ParseUint\<close>; a syntax error gives 0, a magnitude beyond the signed range gives
  the nearest bound with a range error.
\<close>

definition ParseInt :: "string \<Rightarrow> int \<times> NumError option" where
  "ParseInt s0 =
     (case s0 of
        [] \<Rightarrow> (0, Some ErrSyntax)
      | c # cs \<Rightarrow>
          (let neg = (c = CHR ''-'');
               s = (if c = CHR ''+'' \<or> c = CHR ''-'' then cs else s0)
           in case ParseUint s of
                (un, err) \<Rightarrow>
                  if err \<noteq> None \<and> err \<noteq> Some ErrRange then (0, err)
                  else
                    (let cutoff = 2 ^ 63 in
                     if \<not> neg \<and> un \<ge> cutoff then (cutoff - 1, Some ErrRange)
                     else if neg \<and> un > cutoff then (- cutoff, Some ErrRange)
                     else
                       (let n = int64_wrap un;
                            n = (if neg then int64_wrap (- n) else n)
                        in (n, None)))))"

text \<open>
  The digit loop of the fast path of \<^verbatim>\<open>strconv.Atoi\<close>: \<^verbatim>\<open>ch -= '0'\<close> is a byte
  subtraction, so a byte below \<^verbatim>\<open>'0'\<close> wraps to a value above 9. With at most 18
  digits \<open>n\<close> stays below \<open>10 ^ 18\<close>, within \<^verbatim>\<open>int\<close>.
\<close>

fun Atoi_digits :: "string \<Rightarrow> int \<Rightarrow> int option" where
  "Atoi_digits [] n = Some n"
| "Atoi_digits (ch # s) n =
     (let ch = (of_char ch + 256 - 48) mod 256 :: nat
      in if ch > 9 then None else Atoi_digits s (n * 10 + int ch))"

text \<open>
  \<^verbatim>\<open>strconv.Atoi\<close> on a 64-bit target: strings of 1 to 18 bytes take the fast path,
  all others go to \<^verbatim>\<open>ParseInt(s, 10, 0)\<close>, whose bit size 0 stands for that of
  \<^verbatim>\<open>int\<close>.
\<close>

definition Atoi :: "string \<Rightarrow> int \<times> NumError option" where
  "Atoi s0 =
     (if 0 < length s0 \<and> length s0 < 19 then
        (let signed = (hd s0 = CHR ''-'' \<or> hd s0 = CHR ''+'');
             s = (if signed then tl s0 else s0)
         in if signed \<and> length s < 1 then (0, Some ErrSyntax)
            else
              (case Atoi_digits s 0 of
                 None \<Rightarrow> (0, Some ErrSyntax)
               | Some n \<Rightarrow> ((if hd s0 = CHR ''-'' then - n else n), None)))
      else ParseInt s0)"

section \<open>Queries (pkg/rest/standards.go)\<close>

text \<open>
  \<^verbatim>\<open>type Filter map[string]string\<close> is an association list: the entries in the order
  the runtime happens to iterate them, \<^verbatim>\<open>m[k] = v\<close> being \<^const>\<open>AList.update\<close>.
  \<^verbatim>\<open>Query\<close> embeds \<^verbatim>\<open>PaginationMeta\<close>.
\<close>

type_synonym Filter = "(string \<times> string) list"

record PaginationMeta =
  Page :: int
  PerPage :: int
  Total :: int
  TotalPages :: int

record Query = PaginationMeta +
  Filter :: Filter

text \<open>
  \<^verbatim>\<open>url.Values\<close>, the parsed query string of the request: each parameter name with the
  list of its values.
\<close>

type_synonym Values = "(string \<times> string list) list"

text \<open>The zero value \<^verbatim>\<open>Query{Filter: make(Filter)}\<close>.\<close>

definition empty_Query :: Query where
  "empty_Query = \<lparr>Page = 0, PerPage = 0, Total = 0, TotalPages = 0, Filter = []\<rparr>"

text \<open>One iteration of the loop over the query parameters in \<^verbatim>\<open>ParseQuery\<close>.\<close>

definition ParseQuery_param :: "string \<times> string list \<Rightarrow> Query \<Rightarrow> Query" where
  "ParseQuery_param kv query =
     (case snd kv of
        [] \<Rightarrow> query
      | value # _ \<Rightarrow>
          if fst kv = ''page'' then query\<lparr>Page := fst (Atoi value)\<rparr>
          else if fst kv = ''per_page'' then query\<lparr>PerPage := fst (Atoi value)\<rparr>
          else query\<lparr>Filter := AList.update (fst kv) value (Filter query)\<rparr>)"

definition ParseQuery :: "Values \<Rightarrow> Query" where
  "ParseQuery params =
     (let query = fold ParseQuery_param params empty_Query;
          query = (if Page query = 0 then query\<lparr>Page := 1\<rparr> else query);
          query = (if PerPage query = 0 then query\<lparr>PerPage := 20\<rparr> else query)
      in query)"

section \<open>The database behind \<^verbatim>\<open>db.DB\<close> (pkg/db, database/migrations)\<close>

text \<open>
  The repository talks to PostgreSQL through the \<^verbatim>\<open>db.DB\<close> interface. The engine is
  modelled for the one table \<^verbatim>\<open>tasks\<close> and the statement shapes the repository
  issues. A statement's text is kept in parsed form: the column lists, the conjuncts
  \<^verbatim>\<open>col = $n\<close> of its \<^verbatim>\<open>WHERE\<close> clause and the placeholders of \<^verbatim>\<open>LIMIT\<close> and
  \<^verbatim>\<open>OFFSET\<close>.
\<close>

datatype error =
    ErrTaskNotFound \<comment> \<open>\<^verbatim>\<open>postgres.ErrTaskNotFound\<close>\<close>
  | ErrNoRows \<comment> \<open>\<^verbatim>\<open>sql.ErrNoRows\<close>\<close>
  | Error string \<comment> \<open>any other error value, by its message\<close>

datatype sql_value = SqlText string | SqlInt int | SqlTime time

datatype sql_expr = Param nat | Now

type_synonym sql_cond = "string \<times> nat"

datatype sql_stmt =
    INSERT "string list" "sql_expr list" "string list"
      \<comment> \<open>\<^verbatim>\<open>INSERT INTO tasks (cols) VALUES (exprs) RETURNING cols\<close>\<close>
  | SELECT "string list" "sql_cond list" "(nat \<times> nat) option"
      \<comment> \<open>\<^verbatim>\<open>SELECT cols FROM tasks [WHERE conds] [LIMIT $a OFFSET $b]\<close>\<close>
  | SELECT_COUNT "sql_cond list"
      \<comment> \<open>\<^verbatim>\<open>SELECT COUNT(*) FROM tasks [WHERE conds]\<close>\<close>
  | UPDATE "(string \<times> sql_expr) list" "sql_cond list" "string list"
      \<comment> \<open>\<^verbatim>\<open>UPDATE tasks SET col = expr, ... WHERE conds RETURNING cols\<close>\<close>
  | DELETE "sql_cond list"
      \<comment> \<open>\<^verbatim>\<open>DELETE FROM tasks WHERE conds\<close>\<close>

type_synonym row = "(string \<times> sql_value) list"

text \<open>
  The state of the database: the rows of \<^verbatim>\<open>tasks\<close> in storage order, the sequence
  behind \<^verbatim>\<open>id SERIAL\<close>, the clock read by \<^verbatim>\<open>now()\<close>, and a script of failures: the
  next statement consumes the head of \<open>faults\<close> and, if that is \<open>Some msg\<close>, fails with
  that message without touching the table (a lost connection, a violated constraint,
  a cancelled context).
\<close>

record db =
  table :: "Task list"
  next_id :: int
  clock :: time
  faults :: "string option list"

definition column :: "string \<Rightarrow> Task \<Rightarrow> sql_value option" where
  "column c r =
     (if c = ''id'' then Some (SqlInt (ID r))
      else if c = ''title'' then Some (SqlText (Title r))
      else if c = ''description'' then Some (SqlText (Description r))
      else if c = ''status'' then Some (SqlText (Status r))
      else if c = ''assignee_id'' then Some (SqlInt (AssigneeID r))
      else if c = ''created_at'' then Some (SqlTime (CreatedAt r))
      else if c = ''updated_at'' then Some (SqlTime (UpdatedAt r))
      else None)"

text \<open>
  Storing a value in a column of a row; sqlx scans a result column into the struct field
  with the same \<^verbatim>\<open>db\<close> tag in the same way. \<open>None\<close>: no such column, or a value of the
  wrong type.
\<close>

definition set_column :: "string \<Rightarrow> sql_value \<Rightarrow> Task \<Rightarrow> Task option" where
  "set_column c v r =
     (case v of
        SqlInt n \<Rightarrow>
          if c = ''id'' then Some (r\<lparr>ID := n\<rparr>)
          else if c = ''assignee_id'' then Some (r\<lparr>AssigneeID := n\<rparr>)
          else None
      | SqlText s \<Rightarrow>
          if c = ''title'' then Some (r\<lparr>Title := s\<rparr>)
          else if c = ''description'' then Some (r\<lparr>Description := s\<rparr>)
          else if c = ''status'' then Some (r\<lparr>Status := s\<rparr>)
          else None
      | SqlTime t \<Rightarrow>
          if c = ''created_at'' then Some (r\<lparr>CreatedAt := t\<rparr>)
          else if c = ''updated_at'' then Some (r\<lparr>UpdatedAt := t\<rparr>)
          else None)"

fun set_columns :: "row \<Rightarrow> Task \<Rightarrow> Task option" where
  "set_columns [] r = Some r"
| "set_columns ((c, v) # cvs) r =
     (case set_column c v r of None \<Rightarrow> None | Some r' \<Rightarrow> set_columns cvs r')"

text \<open>
  Input conversion of a statement parameter to the type of the column it is compared
  with or stored in. A text parameter for an integer column is read as a decimal
  number. \<open>None\<close> is the engine's "invalid input" error. What else the column types
  reject (a word that is no label of the enum \<^verbatim>\<open>task_status\<close>, a number beyond
  \<^verbatim>\<open>INTEGER\<close>, a title beyond \<^verbatim>\<open>VARCHAR(255)\<close>) is among the failures of the script.
\<close>

definition coerce :: "string \<Rightarrow> sql_value \<Rightarrow> sql_value option" where
  "coerce c v =
     (if c = ''id'' \<or> c = ''assignee_id'' then
        (case v of
           SqlInt n \<Rightarrow> Some (SqlInt n)
         | SqlText s \<Rightarrow>
             (case Atoi s of
                (n, None) \<Rightarrow> Some (SqlInt n)
              | (n, Some e) \<Rightarrow> None)
         | SqlTime t \<Rightarrow> None)
      else if c = ''title'' \<or> c = ''description'' \<or> c = ''status'' then
        (case v of SqlText s \<Rightarrow> Some (SqlText s) | _ \<Rightarrow> None)
      else if c = ''created_at'' \<or> c = ''updated_at'' then
        (case v of SqlTime t \<Rightarrow> Some (SqlTime t) | _ \<Rightarrow> None)
      else None)"

text \<open>The argument bound to placeholder \<^verbatim>\<open>$n\<close>, counted from 1.\<close>

definition arg :: "sql_value list \<Rightarrow> nat \<Rightarrow> sql_value option" where
  "arg args n = (if 1 \<le> n \<and> n \<le> length args then Some (args ! (n - 1)) else None)"

fun bind_conds :: "sql_cond list \<Rightarrow> sql_value list \<Rightarrow> row option" where
  "bind_conds [] args = Some []"
| "bind_conds ((c, n) # conds) args =
     (case arg args n of
        None \<Rightarrow> None
      | Some v \<Rightarrow>
          (case coerce c v of
             None \<Rightarrow> None
           | Some v' \<Rightarrow>
               (case bind_conds conds args of
                  None \<Rightarrow> None
                | Some bs \<Rightarrow> Some ((c, v') # bs))))"

definition eval_expr :: "sql_expr \<Rightarrow> sql_value list \<Rightarrow> time \<Rightarrow> sql_value option" where
  "eval_expr e args t = (case e of Param n \<Rightarrow> arg args n | Now \<Rightarrow> Some (SqlTime t))"

fun bind_sets :: "(string \<times> sql_expr) list \<Rightarrow> sql_value list \<Rightarrow> time \<Rightarrow> row option" where
  "bind_sets [] args t = Some []"
| "bind_sets ((c, e) # sets) args t =
     (case eval_expr e args t of
        None \<Rightarrow> None
      | Some v \<Rightarrow>
          (case coerce c v of
             None \<Rightarrow> None
           | Some v' \<Rightarrow>
               (case bind_sets sets args t of
                  None \<Rightarrow> None
                | Some bs \<Rightarrow> Some ((c, v') # bs))))"

text \<open>A row satisfies the \<^verbatim>\<open>WHERE\<close> clause when every conjunct is an exact match.\<close>

definition satisfies :: "row \<Rightarrow> Task \<Rightarrow> bool" where
  "satisfies bs r = list_all (\<lambda>cv. column (fst cv) r = Some (snd cv)) bs"

fun project :: "string list \<Rightarrow> Task \<Rightarrow> row option" where
  "project [] r = Some []"
| "project (c # cs) r =
     (case column c r of
        None \<Rightarrow> None
      | Some v \<Rightarrow> (case project cs r of None \<Rightarrow> None | Some vs \<Rightarrow> Some ((c, v) # vs)))"

fun project_all :: "string list \<Rightarrow> Task list \<Rightarrow> row list option" where
  "project_all cs [] = Some []"
| "project_all cs (r # rs) =
     (case project cs r of
        None \<Rightarrow> None
      | Some v \<Rightarrow> (case project_all cs rs of None \<Rightarrow> None | Some vs \<Rightarrow> Some (v # vs)))"

text \<open>Storing bound values in a row; the values have been converted, so none is skipped.\<close>

definition store :: "row \<Rightarrow> Task \<Rightarrow> Task" where
  "store bs r = (case set_columns bs r of None \<Rightarrow> r | Some r' \<Rightarrow> r')"

definition statement_error :: "string \<Rightarrow> db \<Rightarrow> (error + row list \<times> int) \<times> db" where
  "statement_error msg d = (Inl (Error msg), d)"

text \<open>
  Executing one statement: the rows it returns and the number of rows it affected, or
  the engine's error. \<^verbatim>\<open>LIMIT\<close> and \<^verbatim>\<open>OFFSET\<close> must not be negative. A new row gets its
  \<^verbatim>\<open>id\<close> from the sequence and the column defaults of the table definition; \<^verbatim>\<open>title\<close>
  and \<^verbatim>\<open>assignee_id\<close> have none and are \<^verbatim>\<open>NOT NULL\<close>.
\<close>

definition execute :: "sql_stmt \<Rightarrow> sql_value list \<Rightarrow> db \<Rightarrow> (error + row list \<times> int) \<times> db" where
  "execute stmt args d =
     (case stmt of
        INSERT cols exprs returning \<Rightarrow>
          if length cols \<noteq> length exprs then statement_error ''syntax error'' d
          else if ''title'' \<notin> set cols \<or> ''assignee_id'' \<notin> set cols
          then statement_error ''null value violates not-null constraint'' d
          else
            (case bind_sets (zip cols exprs) args (clock d) of
               None \<Rightarrow> statement_error ''invalid input'' d
             | Some bs \<Rightarrow>
                 (let r = store bs \<lparr>ID = next_id d, Title = [], Description = [],
                            Status = ''pending'', AssigneeID = 0,
                            CreatedAt = clock d, UpdatedAt = clock d\<rparr> in
                  case project returning r of
                    None \<Rightarrow> statement_error ''column does not exist'' d
                  | Some out \<Rightarrow>
                      (Inr ([out], 1), d\<lparr>table := table d @ [r], next_id := next_id d + 1\<rparr>)))
      | SELECT cols conds paging \<Rightarrow>
          (case bind_conds conds args of
             None \<Rightarrow> statement_error ''invalid input'' d
           | Some bs \<Rightarrow>
               (let matching = filter (satisfies bs) (table d) in
                case paging of
                  None \<Rightarrow>
                    (case project_all cols matching of
                       None \<Rightarrow> statement_error ''column does not exist'' d
                     | Some out \<Rightarrow> (Inr (out, int (length out)), d))
                | Some (a, b) \<Rightarrow>
                    (case (arg args a, arg args b) of
                       (Some (SqlInt limit), Some (SqlInt offset)) \<Rightarrow>
                         if limit < 0 then statement_error ''LIMIT must not be negative'' d
                         else if offset < 0 then statement_error ''OFFSET must not be negative'' d
                         else
                           (case project_all cols (take (nat limit) (drop (nat offset) matching)) of
                              None \<Rightarrow> statement_error ''column does not exist'' d
                            | Some out \<Rightarrow> (Inr (out, int (length out)), d))
                     | _ \<Rightarrow> statement_error ''invalid input'' d)))
      | SELECT_COUNT conds \<Rightarrow>
          (case bind_conds conds args of
             None \<Rightarrow> statement_error ''invalid input'' d
           | Some bs \<Rightarrow>
               (Inr ([[(''count'', SqlInt (int (length (filter (satisfies bs) (table d)))))]], 1), d))
      | UPDATE sets conds returning \<Rightarrow>
          (case (bind_sets sets args (clock d), bind_conds conds args) of
             (Some vs, Some bs) \<Rightarrow>
               (let updated = map (store vs) (filter (satisfies bs) (table d)) in
                case project_all returning updated of
                  None \<Rightarrow> statement_error ''column does not exist'' d
                | Some out \<Rightarrow>
                    (Inr (out, int (length out)),
                     d\<lparr>table := map (\<lambda>r. if satisfies bs r then store vs r else r) (table d)\<rparr>))
           | _ \<Rightarrow> statement_error ''invalid input'' d)
      | DELETE conds \<Rightarrow>
          (case bind_conds conds args of
             None \<Rightarrow> statement_error ''invalid input'' d
           | Some bs \<Rightarrow>
               (Inr ([], int (length (filter (satisfies bs) (table d)))),
                d\<lparr>table := filter (\<lambda>r. \<not> satisfies bs r) (table d)\<rparr>)))"

text \<open>A statement sent over the connection: the failure script decides first.\<close>

definition run :: "sql_stmt \<Rightarrow> sql_value list \<Rightarrow> db \<Rightarrow> (error + row list \<times> int) \<times> db" where
  "run stmt args d =
     (case faults d of
        [] \<Rightarrow> execute stmt args d
      | None # fs \<Rightarrow> execute stmt args (d\<lparr>faults := fs\<rparr>)
      | Some msg # fs \<Rightarrow> (Inl (Error msg), d\<lparr>faults := fs\<rparr>))"

subsection \<open>The calls of \<^verbatim>\<open>db.DB\<close> the repository uses\<close>

text \<open>
  \<^verbatim>\<open>GetContext\<close> scans the first row of the result into its destination and returns
  \<^verbatim>\<open>sql.ErrNoRows\<close> when there is none; the destination is a \<^verbatim>\<open>*entities.Task\<close>, whose
  other fields keep their values, or an \<^verbatim>\<open>*int\<close>.
\<close>

definition GetContext_Task ::
  "Task \<Rightarrow> sql_stmt \<Rightarrow> sql_value list \<Rightarrow> db \<Rightarrow> (error + Task) \<times> db" where
  "GetContext_Task dest stmt args d =
     (case run stmt args d of
        (Inl err, d') \<Rightarrow> (Inl err, d')
      | (Inr ([], n), d') \<Rightarrow> (Inl ErrNoRows, d')
      | (Inr (r # rs, n), d') \<Rightarrow>
          (case set_columns r dest of
             None \<Rightarrow> (Inl (Error ''missing destination name''), d')
           | Some t \<Rightarrow> (Inr t, d')))"

definition GetContext_int ::
  "sql_stmt \<Rightarrow> sql_value list \<Rightarrow> db \<Rightarrow> (error + int) \<times> db" where
  "GetContext_int stmt args d =
     (case run stmt args d of
        (Inl err, d') \<Rightarrow> (Inl err, d')
      | (Inr ([], n), d') \<Rightarrow> (Inl ErrNoRows, d')
      | (Inr (r # rs, n), d') \<Rightarrow>
          (case r of
             [(c, SqlInt v)] \<Rightarrow> (Inr v, d')
           | _ \<Rightarrow> (Inl (Error ''scan error''), d')))"

definition zero_Task :: Task where
  "zero_Task = \<lparr>ID = 0, Title = [], Description = [], Status = [], AssigneeID = 0,
                CreatedAt = 0, UpdatedAt = 0\<rparr>"

fun scan_all :: "row list \<Rightarrow> Task list option" where
  "scan_all [] = Some []"
| "scan_all (r # rs) =
     (case set_columns r zero_Task of
        None \<Rightarrow> None
      | Some t \<Rightarrow> (case scan_all rs of None \<Rightarrow> None | Some ts \<Rightarrow> Some (t # ts)))"

text \<open>\<^verbatim>\<open>SelectContext\<close> scans every row of the result into a fresh element of the slice.\<close>

definition SelectContext ::
  "sql_stmt \<Rightarrow> sql_value list \<Rightarrow> db \<Rightarrow> (error + Task list) \<times> db" where
  "SelectContext stmt args d =
     (case run stmt args d of
        (Inl err, d') \<Rightarrow> (Inl err, d')
      | (Inr (rs, n), d') \<Rightarrow>
          (case scan_all rs of
             None \<Rightarrow> (Inl (Error ''missing destination name''), d')
           | Some ts \<Rightarrow> (Inr ts, d')))"

text \<open>
  \<^verbatim>\<open>ExecContext\<close> returns an \<^verbatim>\<open>sql.Result\<close>, whose \<^verbatim>\<open>RowsAffected()\<close> is the count
  the engine reported.
\<close>

record Result =
  RowsAffected :: "error + int"

definition ExecContext ::
  "sql_stmt \<Rightarrow> sql_value list \<Rightarrow> db \<Rightarrow> (error + Result) \<times> db" where
  "ExecContext stmt args d =
     (case run stmt args d of
        (Inl err, d') \<Rightarrow> (Inl err, d')
      | (Inr (rs, n), d') \<Rightarrow> (Inr \<lparr>RowsAffected = Inr n\<rparr>, d'))"

section \<open>The repository (internal/repository/postgres)\<close>

definition task_columns :: "string list" where
  "task_columns = [''id'', ''title'', ''description'', ''status'', ''assignee_id'',
                   ''created_at'', ''updated_at'']"

text \<open>
  \<^verbatim>\<open>Create\<close>: the insert returns \<^verbatim>\<open>id, created_at, updated_at\<close>, which are scanned
  into the task passed in.
\<close>

definition postgres_Task_Create :: "Task \<Rightarrow> db \<Rightarrow> (error + Task) \<times> db" where
  "postgres_Task_Create t d =
     (case GetContext_Task t
             (INSERT [''title'', ''description'', ''status'', ''assignee_id'']
                     [Param 1, Param 2, Param 3, Param 4]
                     [''id'', ''created_at'', ''updated_at''])
             [SqlText (Title t), SqlText (Description t), SqlText (Status t),
              SqlInt (AssigneeID t)] d of
        (Inl err, d') \<Rightarrow> (Inl err, d')
      | (Inr t', d') \<Rightarrow> (Inr t', d'))"

text \<open>\<^verbatim>\<open>GetByID\<close>: \<^verbatim>\<open>sql.ErrNoRows\<close> becomes \<^verbatim>\<open>ErrTaskNotFound\<close>, any other error is returned as it is.\<close>

definition postgres_Task_GetByID :: "int \<Rightarrow> db \<Rightarrow> (error + Task) \<times> db" where
  "postgres_Task_GetByID i d =
     (case GetContext_Task zero_Task (SELECT task_columns [(''id'', 1)] None) [SqlInt i] d of
        (Inl err, d') \<Rightarrow>
          if err = ErrNoRows then (Inl ErrTaskNotFound, d') else (Inl err, d')
      | (Inr task, d') \<Rightarrow> (Inr task, d'))"

text \<open>
  \<^verbatim>\<open>List\<close>. One iteration of the loop over \<^verbatim>\<open>query.Filter\<close>: for the three fields
  of the \<^verbatim>\<open>switch\<close> it appends the condition \<^verbatim>\<open>field = $i\<close> and the argument and
  increments \<^verbatim>\<open>i\<close>; any other field falls through.
\<close>

definition List_filter ::
  "string \<times> string \<Rightarrow> sql_value list \<times> sql_cond list \<times> nat
     \<Rightarrow> sql_value list \<times> sql_cond list \<times> nat" where
  "List_filter fv acc =
     (case acc of
        (args, conditions, i) \<Rightarrow>
          if fst fv = ''status'' \<or> fst fv = ''assignee_id'' \<or> fst fv = ''title''
          then (args @ [SqlText (snd fv)], conditions @ [(fst fv, i)], i + 1)
          else (args, conditions, i))"

text \<open>
  The count is fetched first, then the page: \<^verbatim>\<open>offset := (query.Page - 1) * query.PerPage\<close>
  in Go's \<^verbatim>\<open>int\<close>, \<^verbatim>\<open>LIMIT $i OFFSET $i+1\<close> with the page size and the offset appended
  to the arguments. Either failure returns \<^verbatim>\<open>nil, 0, err\<close>.
\<close>

definition postgres_Task_List :: "Query \<Rightarrow> db \<Rightarrow> (error + Task list \<times> int) \<times> db" where
  "postgres_Task_List query d =
     (case fold List_filter (Filter query) ([], [], 1) of
        (args, conditions, i) \<Rightarrow>
          (case GetContext_int (SELECT_COUNT conditions) args d of
             (Inl err, d') \<Rightarrow> (Inl err, d')
           | (Inr totalCount, d') \<Rightarrow>
               (let offset = int64_wrap (int64_wrap (Page query - 1) * PerPage query);
                    args = args @ [SqlInt (PerPage query), SqlInt offset] in
                case SelectContext (SELECT task_columns conditions (Some (i, i + 1))) args d' of
                  (Inl err, d'') \<Rightarrow> (Inl err, d'')
                | (Inr tasks, d'') \<Rightarrow> (Inr (tasks, totalCount), d''))))"

text \<open>
  \<^verbatim>\<open>Update\<close>: the statement sets \<^verbatim>\<open>title\<close>, \<^verbatim>\<open>description\<close>, \<^verbatim>\<open>status\<close> and
  \<^verbatim>\<open>updated_at = now()\<close> where \<^verbatim>\<open>id = $4\<close>, and the returned row is scanned into the
  task passed in.
\<close>

definition postgres_Task_Update :: "Task \<Rightarrow> db \<Rightarrow> (error + Task) \<times> db" where
  "postgres_Task_Update t d =
     (case GetContext_Task t
             (UPDATE [(''title'', Param 1), (''description'', Param 2), (''status'', Param 3),
                      (''updated_at'', Now)]
                     [(''id'', 4)]
                     task_columns)
             [SqlText (Title t), SqlText (Description t), SqlText (Status t), SqlInt (ID t)] d of
        (Inl err, d') \<Rightarrow>
          if err = ErrNoRows then (Inl ErrTaskNotFound, d') else (Inl err, d')
      | (Inr t', d') \<Rightarrow> (Inr t', d'))"

text \<open>\<^verbatim>\<open>Delete\<close>: \<^verbatim>\<open>ErrTaskNotFound\<close> when the statement affected no row.\<close>

definition postgres_Task_Delete :: "int \<Rightarrow> db \<Rightarrow> error option \<times> db" where
  "postgres_Task_Delete i d =
     (case ExecContext (DELETE [(''id'', 1)]) [SqlInt i] d of
        (Inl err, d') \<Rightarrow> (Some err, d')
      | (Inr result, d') \<Rightarrow>
          (case RowsAffected result of
             Inl err \<Rightarrow> (Some err, d')
           | Inr rows \<Rightarrow> if rows = 0 then (Some ErrTaskNotFound, d') else (None, d')))"

text \<open>
  The interface \<^verbatim>\<open>TaskRepository\<close>: five operations on a store whose state has type
  \<^typ>\<open>'s\<close>. \<^verbatim>\<open>NewTaskRepository\<close> is the implementation above.
\<close>

record 's TaskRepository =
  repo_Create :: "Task \<Rightarrow> 's \<Rightarrow> (error + Task) \<times> 's"
  repo_Update :: "Task \<Rightarrow> 's \<Rightarrow> (error + Task) \<times> 's"
  repo_GetByID :: "int \<Rightarrow> 's \<Rightarrow> (error + Task) \<times> 's"
  repo_Delete :: "int \<Rightarrow> 's \<Rightarrow> error option \<times> 's"
  repo_List :: "Query \<Rightarrow> 's \<Rightarrow> (error + Task list \<times> int) \<times> 's"

definition NewTaskRepository :: "db TaskRepository" where
  "NewTaskRepository =
     \<lparr>repo_Create = postgres_Task_Create, repo_Update = postgres_Task_Update,
      repo_GetByID = postgres_Task_GetByID, repo_Delete = postgres_Task_Delete,
      repo_List = postgres_Task_List\<rparr>"

section \<open>The service (internal/service/task_service.go)\<close>

text \<open>
  \<^verbatim>\<open>monitoring.TaskMetrics\<close>: the counter of tasks and, for the latency histogram and
  the request counter, the label tuples of the observations made (the measured
  durations are not part of the model).
\<close>

record TaskMetrics =
  TasksCount :: nat
  RequestLatency :: "(string \<times> string \<times> string) list"
  RequestCount :: "(string \<times> string) list"

definition statusLabel :: "error option \<Rightarrow> string" where
  "statusLabel err = (if err \<noteq> None then ''error'' else ''success'')"

definition error_of :: "error + 'a \<Rightarrow> error option" where
  "error_of res = (case res of Inl err \<Rightarrow> Some err | Inr v \<Rightarrow> None)"

definition Observe :: "string \<Rightarrow> error option \<Rightarrow> TaskMetrics \<Rightarrow> TaskMetrics" where
  "Observe method err m =
     m\<lparr>RequestLatency := RequestLatency m @ [(method, statusLabel err, ''task_service'')]\<rparr>"

text \<open>
  The service \<^verbatim>\<open>Task\<close> holds a repository and the metrics; its state is the state of
  the store together with the metrics. Each operation calls the repository once and
  records the latency; \<^verbatim>\<open>Create\<close> increments the counter on success. \<^verbatim>\<open>Delete\<close> calls
  the counter's \<^verbatim>\<open>Desc()\<close>, which reads its descriptor and changes nothing.
\<close>

definition service_Task_Create ::
  "'s TaskRepository \<Rightarrow> Task \<Rightarrow> 's \<times> TaskMetrics \<Rightarrow> (error + Task) \<times> 's \<times> TaskMetrics" where
  "service_Task_Create taskRepo task st =
     (case repo_Create taskRepo task (fst st) of
        (res, s') \<Rightarrow>
          (let m = (if error_of res = None
                    then (snd st)\<lparr>TasksCount := TasksCount (snd st) + 1\<rparr> else snd st)
           in (res, s', Observe ''POST'' (error_of res) m)))"

definition service_Task_GetByID ::
  "'s TaskRepository \<Rightarrow> int \<Rightarrow> 's \<times> TaskMetrics \<Rightarrow> (error + Task) \<times> 's \<times> TaskMetrics" where
  "service_Task_GetByID taskRepo i st =
     (case repo_GetByID taskRepo i (fst st) of
        (res, s') \<Rightarrow> (res, s', Observe ''GET'' (error_of res) (snd st)))"

definition service_Task_List ::
  "'s TaskRepository \<Rightarrow> Query \<Rightarrow> 's \<times> TaskMetrics
     \<Rightarrow> (error + Task list \<times> int) \<times> 's \<times> TaskMetrics" where
  "service_Task_List taskRepo query st =
     (case repo_List taskRepo query (fst st) of
        (res, s') \<Rightarrow> (res, s', Observe ''GET'' (error_of res) (snd st)))"

definition service_Task_Update ::
  "'s TaskRepository \<Rightarrow> Task \<Rightarrow> 's \<times> TaskMetrics \<Rightarrow> (error + Task) \<times> 's \<times> TaskMetrics" where
  "service_Task_Update taskRepo task st =
     (case repo_Update taskRepo task (fst st) of
        (res, s') \<Rightarrow> (res, s', Observe ''PUT'' (error_of res) (snd st)))"

definition service_Task_Delete ::
  "'s TaskRepository \<Rightarrow> int \<Rightarrow> 's \<times> TaskMetrics \<Rightarrow> error option \<times> 's \<times> TaskMetrics" where
  "service_Task_Delete taskRepo i st =
     (case repo_Delete taskRepo i (fst st) of
        (err, s') \<Rightarrow> (err, s', Observe ''DELETE'' err (snd st)))"

text \<open>The interface \<^verbatim>\<open>TaskService\<close> the handler depends on, and its constructor.\<close>

record 'w TaskService =
  svc_Create :: "Task \<Rightarrow> 'w \<Rightarrow> (error + Task) \<times> 'w"
  svc_Update :: "Task \<Rightarrow> 'w \<Rightarrow> (error + Task) \<times> 'w"
  svc_GetByID :: "int \<Rightarrow> 'w \<Rightarrow> (error + Task) \<times> 'w"
  svc_List :: "Query \<Rightarrow> 'w \<Rightarrow> (error + Task list \<times> int) \<times> 'w"
  svc_Delete :: "int \<Rightarrow> 'w \<Rightarrow> error option \<times> 'w"

definition NewTaskService :: "'s TaskRepository \<Rightarrow> ('s \<times> TaskMetrics) TaskService" where
  "NewTaskService taskRepo =
     \<lparr>svc_Create = service_Task_Create taskRepo, svc_Update = service_Task_Update taskRepo,
      svc_GetByID = service_Task_GetByID taskRepo, svc_List = service_Task_List taskRepo,
      svc_Delete = service_Task_Delete taskRepo\<rparr>"

section \<open>The HTTP handlers (internal/http/handler_task.go, pkg/rest/standards.go)\<close>

text \<open>
  \<^verbatim>\<open>CreateTaskRequest\<close> and \<^verbatim>\<open>UpdateTaskRequest\<close> have the same four fields and differ
  in their binding tags. \<^verbatim>\<open>TaskResponse\<close> carries the seven values of a task (its two
  timestamps rendered as RFC 3339 text, which the model keeps as the time itself).
\<close>

record TaskRequest =
  req_Title :: string
  req_Description :: string
  req_Status :: TaskStatus
  req_AssigneeID :: int

datatype ResponseData = NoData | TaskData Task | TaskListData "Task list"

record StandardResponse =
  resp_Data :: ResponseData
  resp_Meta :: PaginationMeta
  resp_Message :: string
  resp_Errors :: "string list"
  resp_Status :: string

definition zero_PaginationMeta :: PaginationMeta where
  "zero_PaginationMeta = \<lparr>Page = 0, PerPage = 0, Total = 0, TotalPages = 0\<rparr>"

definition GetSuccessResponse :: "ResponseData \<Rightarrow> StandardResponse" where
  "GetSuccessResponse data =
     \<lparr>resp_Data = data, resp_Meta = zero_PaginationMeta, resp_Message = ''success'',
      resp_Errors = [], resp_Status = ''ok''\<rparr>"

definition GetFailedResponseFromMessage :: "string \<Rightarrow> StandardResponse" where
  "GetFailedResponseFromMessage message =
     \<lparr>resp_Data = NoData, resp_Meta = zero_PaginationMeta, resp_Message = message,
      resp_Errors = [], resp_Status = ''fail''\<rparr>"

definition InternalServerError :: StandardResponse where
  "InternalServerError = GetFailedResponseFromMessage ''Internal Server Error''"

definition NotFound :: StandardResponse where
  "NotFound = GetFailedResponseFromMessage ''Not Found!''"

text \<open>
  \<^verbatim>\<open>GetFailedValidationResponse\<close>: the messages of the validation errors, or of the one
  error that is not a list of them.
\<close>

definition GetFailedValidationResponse :: "string list \<Rightarrow> StandardResponse" where
  "GetFailedValidationResponse errs =
     \<lparr>resp_Data = NoData, resp_Meta = zero_PaginationMeta, resp_Message = ''validation error'',
      resp_Errors = errs, resp_Status = ''fail''\<rparr>"

definition GetSuccessResponseWithMeta :: "ResponseData \<Rightarrow> PaginationMeta \<Rightarrow> StandardResponse" where
  "GetSuccessResponseWithMeta data meta =
     \<lparr>resp_Data = data, resp_Meta = meta, resp_Message = ''success'',
      resp_Errors = [], resp_Status = ''ok''\<rparr>"

definition InvalidTaskStatus :: string where
  "InvalidTaskStatus = ''Invalid task status''"

definition TaskIDIsRequired :: string where
  "TaskIDIsRequired = ''Task ID is required''"

definition InvalidTaskID :: string where
  "InvalidTaskID = ''Invalid task ID''"

text \<open>What a handler writes: the status code and the JSON body, if any.\<close>

record Response =
  Code :: nat
  Body :: "StandardResponse option"

definition JSON :: "nat \<Rightarrow> StandardResponse \<Rightarrow> Response" where
  "JSON code obj = \<lparr>Code = code, Body = Some obj\<rparr>"

text \<open>
  \<^verbatim>\<open>c.ShouldBindJSON(&req)\<close>: the body is decoded into the struct (\<open>None\<close>: it is not
  JSON of that shape), then the \<^verbatim>\<open>binding\<close> tags are validated. \<^verbatim>\<open>required\<close> rejects
  the zero value of a field; \<^verbatim>\<open>oneof\<close> accepts the listed words only.
\<close>

definition ShouldBindJSON_CreateTaskRequest :: "TaskRequest option \<Rightarrow> string list + TaskRequest" where
  "ShouldBindJSON_CreateTaskRequest body =
     (case body of
        None \<Rightarrow> Inl [''invalid request'']
      | Some req \<Rightarrow>
          (let errs = (if req_Title req = [] then [''Title: required''] else [])
                    @ (if req_AssigneeID req = 0 then [''AssigneeID: required''] else [])
           in if errs = [] then Inr req else Inl errs))"

definition ShouldBindJSON_UpdateTaskRequest :: "TaskRequest option \<Rightarrow> string list + TaskRequest" where
  "ShouldBindJSON_UpdateTaskRequest body =
     (case body of
        None \<Rightarrow> Inl [''invalid request'']
      | Some req \<Rightarrow>
          (let errs = (if req_Title req = [] then [''Title: required''] else [])
                    @ (if req_Status req = [] then [''Status: required'']
                       else if req_Status req \<notin> set [''pending'', ''in_progress'', ''done'', ''canceled'']
                       then [''Status: oneof''] else [])
                    @ (if req_AssigneeID req = 0 then [''AssigneeID: required''] else [])
           in if errs = [] then Inr req else Inl errs))"

text \<open>
  The handlers, over any implementation \<open>h\<close> of \<^verbatim>\<open>TaskService\<close> with state \<open>w\<close>. The
  log lines they write are not part of the model.
\<close>

definition TaskCreate :: "'w TaskService \<Rightarrow> TaskRequest option \<Rightarrow> 'w \<Rightarrow> Response \<times> 'w" where
  "TaskCreate h body w =
     (case ShouldBindJSON_CreateTaskRequest body of
        Inl err \<Rightarrow> (JSON 400 (GetFailedValidationResponse err), w)
      | Inr req0 \<Rightarrow>
          (let req = (if req_Status req0 = [] then req0\<lparr>req_Status := TaskStatusPending\<rparr>
                      else req0)
           in if \<not> IsValid (req_Status req)
              then (JSON 400 (GetFailedValidationResponse [InvalidTaskStatus]), w)
              else
                (let task = \<lparr>ID = 0, Title = req_Title req, Description = req_Description req,
                             Status = req_Status req, AssigneeID = req_AssigneeID req,
                             CreatedAt = 0, UpdatedAt = 0\<rparr>
                 in case svc_Create h task w of
                      (Inl err, w') \<Rightarrow> (JSON 500 InternalServerError, w')
                    | (Inr createdTask, w') \<Rightarrow>
                        (JSON 201 (GetSuccessResponse (TaskData createdTask)), w'))))"

definition TaskUpdate ::
  "'w TaskService \<Rightarrow> string \<Rightarrow> TaskRequest option \<Rightarrow> 'w \<Rightarrow> Response \<times> 'w" where
  "TaskUpdate h taskIDParam body w =
     (if taskIDParam = [] then (JSON 400 (GetFailedValidationResponse [TaskIDIsRequired]), w)
      else
        (case ParseInt taskIDParam of
           (taskID, Some err) \<Rightarrow> (JSON 400 (GetFailedValidationResponse [InvalidTaskStatus]), w)
         | (taskID, None) \<Rightarrow>
             (case ShouldBindJSON_UpdateTaskRequest body of
                Inl err \<Rightarrow> (JSON 400 (GetFailedValidationResponse err), w)
              | Inr req \<Rightarrow>
                  (let task = \<lparr>ID = taskID, Title = req_Title req,
                               Description = req_Description req, Status = req_Status req,
                               AssigneeID = req_AssigneeID req, CreatedAt = 0, UpdatedAt = 0\<rparr>
                   in case svc_Update h task w of
                        (Inl err, w') \<Rightarrow>
                          if err = ErrTaskNotFound then (JSON 404 NotFound, w')
                          else (JSON 500 InternalServerError, w')
                      | (Inr updatedTask, w') \<Rightarrow>
                          (JSON 200 (GetSuccessResponse (TaskData updatedTask)), w')))))"

definition TaskDelete :: "'w TaskService \<Rightarrow> string \<Rightarrow> 'w \<Rightarrow> Response \<times> 'w" where
  "TaskDelete h taskIDParam w =
     (if taskIDParam = [] then (JSON 400 (GetFailedValidationResponse [TaskIDIsRequired]), w)
      else
        (case ParseInt taskIDParam of
           (taskID, Some err) \<Rightarrow> (JSON 400 (GetFailedValidationResponse [InvalidTaskID]), w)
         | (taskID, None) \<Rightarrow>
             (case svc_Delete h taskID w of
                (Some err, w') \<Rightarrow>
                  if err = ErrTaskNotFound then (JSON 404 NotFound, w')
                  else (JSON 500 InternalServerError, w')
              | (None, w') \<Rightarrow> (\<lparr>Code = 204, Body = None\<rparr>, w'))))"

definition TaskGetByID :: "'w TaskService \<Rightarrow> string \<Rightarrow> 'w \<Rightarrow> Response \<times> 'w" where
  "TaskGetByID h taskIDParam w =
     (if taskIDParam = [] then (JSON 400 (GetFailedValidationResponse [TaskIDIsRequired]), w)
      else
        (case ParseInt taskIDParam of
           (taskID, Some err) \<Rightarrow> (JSON 400 (GetFailedValidationResponse [InvalidTaskID]), w)
         | (taskID, None) \<Rightarrow>
             (case svc_GetByID h taskID w of
                (Inl err, w') \<Rightarrow>
                  if err = ErrTaskNotFound then (JSON 404 NotFound, w')
                  else (JSON 500 InternalServerError, w')
              | (Inr task, w') \<Rightarrow> (JSON 200 (GetSuccessResponse (TaskData task)), w'))))"

definition TaskList :: "'w TaskService \<Rightarrow> Values \<Rightarrow> 'w \<Rightarrow> Response \<times> 'w" where
  "TaskList h params w =
     (let query = ParseQuery params in
      case svc_List h query w of
        (Inl err, w') \<Rightarrow> (JSON 500 InternalServerError, w')
      | (Inr (tasks, totalCount), w') \<Rightarrow>
          (JSON 200 (GetSuccessResponseWithMeta (TaskListData tasks)
                       \<lparr>Page = Page query, PerPage = PerPage query, Total = totalCount,
                        TotalPages = 0\<rparr>), w'))"

section \<open>Notions used in the statements and proofs\<close>

text \<open>
  The reading of "exact match on title, status and assignee id" that the listing is
  compared with: a task matches a filter when each entry for one of these three fields
  equals the task's value, the assignee as a decimal number; other entries say nothing.
\<close>

definition exact_match :: "Filter \<Rightarrow> Task \<Rightarrow> bool" where
  "exact_match fs r =
     list_all (\<lambda>fv. if fst fv = ''status'' then Status r = snd fv
                    else if fst fv = ''assignee_id'' then AssigneeID r = fst (Atoi (snd fv))
                    else if fst fv = ''title'' then Title r = snd fv
                    else True) fs"

text \<open>
  A recording double of a repository, as the tests use to see which operations of the
  store a service call reaches: every operation appends itself to the log of calls and
  then runs the repository it wraps.
\<close>

datatype Call =
    Call_Create Task
  | Call_Update Task
  | Call_GetByID int
  | Call_Delete int
  | Call_List Query

definition Recorded :: "'s TaskRepository \<Rightarrow> ('s \<times> Call list) TaskRepository" where
  "Recorded r =
     \<lparr>repo_Create = (\<lambda>t st. case repo_Create r t (fst st) of
                         (res, s') \<Rightarrow> (res, s', snd st @ [Call_Create t])),
      repo_Update = (\<lambda>t st. case repo_Update r t (fst st) of
                         (res, s') \<Rightarrow> (res, s', snd st @ [Call_Update t])),
      repo_GetByID = (\<lambda>i st. case repo_GetByID r i (fst st) of
                         (res, s') \<Rightarrow> (res, s', snd st @ [Call_GetByID i])),
      repo_Delete = (\<lambda>i st. case repo_Delete r i (fst st) of
                         (res, s') \<Rightarrow> (res, s', snd st @ [Call_Delete i])),
      repo_List = (\<lambda>q st. case repo_List r q (fst st) of
                         (res, s') \<Rightarrow> (res, s', snd st @ [Call_List q]))\<rparr>"

text \<open>The \<^verbatim>\<open>List\<close> calls among the recorded calls.\<close>

definition List_calls :: "Call list \<Rightarrow> Query list" where
  "List_calls cs = concat (map (\<lambda>c. case c of Call_List q \<Rightarrow> [q] | _ \<Rightarrow> []) cs)"

text \<open>The number a string of decimal digits denotes, read from the left after \<open>n\<close>.\<close>

fun decimal :: "string \<Rightarrow> int \<Rightarrow> int" where
  "decimal [] n = n"
| "decimal (ch # s) n = decimal s (n * 10 + digit_value ch)"

text \<open>A value starts with a minus sign.\<close>

definition minus_sign :: "string \<Rightarrow> bool" where
  "minus_sign v = (case v of [] \<Rightarrow> False | c # cs \<Rightarrow> c = CHR ''-'')"

text \<open>
  The value a list request gives for parameter \<open>k\<close> (the first one, as \<^verbatim>\<open>ParseQuery\<close>
  reads it) does not start with a minus sign.
\<close>

definition no_minus :: "string \<Rightarrow> Values \<Rightarrow> bool" where
  "no_minus k params =
     list_all (\<lambda>kv. if fst kv = k
                      then (case snd kv of [] \<Rightarrow> True | v # vs \<Rightarrow> \<not> minus_sign v)
                      else True) params"

text \<open>The filter entries the \<^verbatim>\<open>switch\<close> in \<^verbatim>\<open>List\<close> has a case for.\<close>

definition filterable :: "string \<times> string \<Rightarrow> bool" where
  "filterable fv = (fst fv = ''status'' \<or> fst fv = ''assignee_id'' \<or> fst fv = ''title'')"

text \<open>The conditions and arguments \<^verbatim>\<open>List\<close> has built when its loop ends.\<close>

definition List_conditions :: "Filter \<Rightarrow> sql_cond list" where
  "List_conditions ws = zip (map fst ws) [Suc 0 ..< Suc (length ws)]"

definition List_args :: "Filter \<Rightarrow> sql_value list" where
  "List_args ws = map (\<lambda>fv. SqlText (snd fv)) ws"

text \<open>The values of filter entries after input conversion, as \<^const>\<open>bind_conds\<close> yields them.\<close>

fun bind_filter :: "Filter \<Rightarrow> row option" where
  "bind_filter [] = Some []"
| "bind_filter (fv # fs) =
     (case coerce (fst fv) (SqlText (snd fv)) of
        None \<Rightarrow> None
      | Some v' \<Rightarrow> (case bind_filter fs of None \<Rightarrow> None | Some bs \<Rightarrow> Some ((fst fv, v') # bs)))"

text \<open>The offset \<^verbatim>\<open>List\<close> computes, in Go's 64-bit arithmetic.\<close>

definition page_offset :: "Query \<Rightarrow> int" where
  "page_offset q = int64_wrap (int64_wrap (Page q - 1) * PerPage q)"

text \<open>A row of \<^verbatim>\<open>tasks\<close> with all seven columns selected.\<close>

definition task_row :: "Task \<Rightarrow> row" where
  "task_row r = [(''id'', SqlInt (ID r)), (''title'', SqlText (Title r)),
                 (''description'', SqlText (Description r)), (''status'', SqlText (Status r)),
                 (''assignee_id'', SqlInt (AssigneeID r)), (''created_at'', SqlTime (CreatedAt r)),
                 (''updated_at'', SqlTime (UpdatedAt r))]"

text \<open>The failure, if any, that the script holds for the next statement.\<close>

definition failing :: "db \<Rightarrow> string option" where
  "failing d = (case faults d of Some msg # fs \<Rightarrow> Some msg | _ \<Rightarrow> None)"

text \<open>\<open>n\<close> listings of the service for the same query, one after the other.\<close>

fun List_times :: "'s TaskRepository \<Rightarrow> Query \<Rightarrow> nat \<Rightarrow> 's \<times> TaskMetrics \<Rightarrow> 's \<times> TaskMetrics" where
  "List_times taskRepo q 0 st = st"
| "List_times taskRepo q (Suc n) st = List_times taskRepo q n (snd (service_Task_List taskRepo q st))"

text \<open>The database once the next statement has taken its entry of the failure script.\<close>

definition next_statement :: "db \<Rightarrow> db" where
  "next_statement d = d\<lparr>faults := tl (faults d)\<rparr>"

text \<open>A row after the assignments of the \<^verbatim>\<open>UPDATE\<close> statement for task \<open>t\<close> at time \<open>now\<close>.\<close>

definition written :: "Task \<Rightarrow> time \<Rightarrow> Task \<Rightarrow> Task" where
  "written t now r =
     r\<lparr>Title := Title t, Description := Description t, Status := Status t, UpdatedAt := now\<rparr>"

section \<open>Example data\<close>

definition task_A :: Task where
  "task_A = \<lparr>ID = 1, Title = ''T1'', Description = ''first'', Status = ''pending'',
             AssigneeID = 5, CreatedAt = 10, UpdatedAt = 10\<rparr>"

definition task_B :: Task where
  "task_B = \<lparr>ID = 2, Title = ''T2'', Description = ''second'', Status = ''done'',
             AssigneeID = 7, CreatedAt = 20, UpdatedAt = 20\<rparr>"

definition two_tasks :: db where
  "two_tasks = \<lparr>table = [task_A, task_B], next_id = 3, clock = 30, faults = []\<rparr>"

definition no_metrics :: TaskMetrics where
  "no_metrics = \<lparr>TasksCount = 0, RequestLatency = [], RequestCount = []\<rparr>"

definition overflow_query :: Query where
  "overflow_query =
     \<lparr>Page = 4611686018427387905, PerPage = 4, Total = 0, TotalPages = 0, Filter = []\<rparr>"

definition done_query :: Query where
  "done_query =
     \<lparr>Page = 1, PerPage = 20, Total = 0, TotalPages = 0, Filter = [(''status'', ''done'')]\<rparr>"

definition second_page :: Query where
  "second_page = \<lparr>Page = 2, PerPage = 1, Total = 0, TotalPages = 0, Filter = []\<rparr>"

definition broken :: db where
  "broken = \<lparr>table = [task_A, task_B], next_id = 3, clock = 30,
             faults = [Some ''connection refused'']\<rparr>"

definition reassign_A :: Task where
  "reassign_A = \<lparr>ID = 1, Title = ''T1 renamed'', Description = ''changed'', Status = ''done'',
                 AssigneeID = 99, CreatedAt = 0, UpdatedAt = 0\<rparr>"

definition flaky :: db where
  "flaky = \<lparr>table = [task_A, task_B], next_id = 3, clock = 30,
            faults = [None, None, Some ''connection lost'']\<rparr>"

definition breaking :: db where
  "breaking = \<lparr>table = [task_A, task_B], next_id = 3, clock = 30,
               faults = [None, Some ''connection reset'']\<rparr>"

definition unset_request :: TaskRequest where
  "unset_request = \<lparr>req_Title = ''T3'', req_Description = ''third'', req_Status = [],
                    req_AssigneeID = 9\<rparr>"

definition invalid_request :: TaskRequest where
  "invalid_request = \<lparr>req_Title = ''T3'', req_Description = ''third'',
                      req_Status = ''invalid status'', req_AssigneeID = 9\<rparr>"

definition seven_tasks :: db where
  "seven_tasks = \<lparr>table = [task_A, task_B, task_A\<lparr>ID := 3\<rparr>, task_B\<lparr>ID := 4\<rparr>,
                          task_A\<lparr>ID := 5\<rparr>, task_B\<lparr>ID := 6\<rparr>, task_A\<lparr>ID := 7\<rparr>],
                  next_id = 8, clock = 30, faults = []\<rparr>"

section \<open>Evaluating the model\<close>

lemmas Atoi_eval = Atoi_def ParseInt_def ParseUint_def is_digit_def digit_value_def
  MaxInt64_def MinInt64_def maxUint64_def uint64_wrap_def int64_wrap_def Let_def

lemmas ParseQuery_eval = ParseQuery_def ParseQuery_param_def empty_Query_def Atoi_eval

lemmas db_eval = GetContext_int_def GetContext_Task_def SelectContext_def ExecContext_def
  run_def execute_def statement_error_def arg_def coerce_def column_def set_column_def
  satisfies_def store_def eval_expr_def task_columns_def zero_Task_def

lemmas example_eval = task_A_def task_B_def two_tasks_def no_metrics_def

lemmas List_eval = postgres_Task_List_def List_filter_def int64_wrap_def

lemmas service_eval = service_Task_List_def service_Task_Create_def service_Task_Update_def
  service_Task_Delete_def service_Task_GetByID_def Recorded_def
  NewTaskRepository_def NewTaskService_def Observe_def statusLabel_def error_of_def

section \<open>Go's integer arithmetic\<close>

lemma int64_wrap_mult_left: "int64_wrap (int64_wrap a * b) = int64_wrap (a * b)"
proof -
  have "take_bit (Suc 63) (signed_take_bit 63 a * b) = take_bit (Suc 63) (a * b)"
  proof -
    have "take_bit (Suc 63) (signed_take_bit 63 a * b)
        = take_bit (Suc 63) (take_bit (Suc 63) (signed_take_bit 63 a) * take_bit (Suc 63) b)"
      by (simp only: take_bit_mult)
    also have "\<dots> = take_bit (Suc 63) (take_bit (Suc 63) a * take_bit (Suc 63) b)"
      by (simp only: take_bit_signed_take_bit order_refl)
    also have "\<dots> = take_bit (Suc 63) (a * b)"
      by (simp only: take_bit_mult)
    finally show ?thesis .
  qed
  then show ?thesis
    unfolding int64_wrap_def by (simp only: signed_take_bit_eq_iff_take_bit_eq)
qed

lemma int64_wrap_id: "MinInt64 \<le> x \<Longrightarrow> x \<le> MaxInt64 \<Longrightarrow> int64_wrap x = x"
  unfolding int64_wrap_def MinInt64_def MaxInt64_def
  by (rule signed_take_bit_int_eq_self) simp_all

section \<open>Reading decimal numbers\<close>

text \<open>
  What \<^verbatim>\<open>Atoi\<close> and \<^verbatim>\<open>ParseInt\<close> return for strings of decimal digits, with and without
  a minus sign, and for every string without one.
\<close>

lemma byte_sub:
  "((of_char ch + 256 - 48) mod 256 :: nat) =
     (if (of_char ch :: nat) < 48 then of_char ch + 208 else of_char ch - 48)"
proof (cases "(of_char ch :: nat) < 48")
  case True
  then have "(of_char ch + 256 - 48 :: nat) = of_char ch + 208" by simp
  moreover have "(of_char ch + 208 :: nat) < 256" using True by simp
  ultimately show ?thesis using True by (simp only: mod_less if_True)
next
  case False
  then have "(of_char ch + 256 - 48 :: nat) = (of_char ch - 48) + 256" by simp
  moreover have "(of_char ch - 48 :: nat) < 256"
    using nat_of_char_less_256 [of ch] by linarith
  ultimately show ?thesis using False by (simp only: mod_add_self2 mod_less if_False)
qed

lemma byte_sub_digit:
  "is_digit ch \<Longrightarrow> (of_char ch + 256 - 48) mod 256 = (of_char ch :: nat) - 48"
  unfolding byte_sub is_digit_def by simp

lemma byte_sub_digit_le:
  "((of_char ch + 256 - 48) mod 256 :: nat) \<le> 9 \<longleftrightarrow> is_digit ch"
  unfolding byte_sub is_digit_def by auto

lemma Atoi_digits_decimal:
  "Atoi_digits s n = (if list_all is_digit s then Some (decimal s n) else None)"
proof (induction s arbitrary: n)
  case Nil
  show ?case by simp
next
  case (Cons ch s)
  show ?case
  proof (cases "is_digit ch")
    case True
    then have "int ((of_char ch + 256 - 48) mod 256) = digit_value ch"
      unfolding byte_sub_digit [OF True] digit_value_def is_digit_def by simp
    with True show ?thesis
      using byte_sub_digit_le [of ch] by (simp add: Cons.IH Let_def not_less [symmetric])
  next
    case False
    then show ?thesis using byte_sub_digit_le [of ch] by (simp add: Let_def)
  qed
qed

lemma digit_value_range: "is_digit c \<Longrightarrow> 0 \<le> digit_value c \<and> digit_value c \<le> 9"
  by (auto simp: is_digit_def digit_value_def)

lemma decimal_ge: "list_all is_digit s \<Longrightarrow> 0 \<le> n \<Longrightarrow> n \<le> decimal s n"
proof (induction s arbitrary: n)
  case Nil
  show ?case by simp
next
  case (Cons c s)
  then have d: "0 \<le> digit_value c" and tl: "list_all is_digit s"
    using digit_value_range [of c] by simp_all
  have "n \<le> n * 10 + digit_value c" using Cons.prems(2) d by simp
  also have "\<dots> \<le> decimal s (n * 10 + digit_value c)"
    using Cons.IH [OF tl, of "n * 10 + digit_value c"] Cons.prems(2) d by simp
  finally show ?case by simp
qed

lemma decimal_less:
  "list_all is_digit s \<Longrightarrow> 0 \<le> n \<Longrightarrow> decimal s n < (n + 1) * 10 ^ length s"
proof (induction s arbitrary: n)
  case Nil
  show ?case by simp
next
  case (Cons c s)
  then have d: "0 \<le> digit_value c" "digit_value c \<le> 9" and tl: "list_all is_digit s"
    using digit_value_range [of c] by simp_all
  have "decimal s (n * 10 + digit_value c) < (n * 10 + digit_value c + 1) * 10 ^ length s"
    using Cons.IH [OF tl, of "n * 10 + digit_value c"] Cons.prems(2) d by simp
  also have "\<dots> \<le> ((n + 1) * 10) * 10 ^ length s"
    using d by (intro mult_right_mono) simp_all
  finally show ?case by (simp add: algebra_simps)
qed

lemma ParseUint_digits_decimal:
  "list_all is_digit s \<Longrightarrow> 0 \<le> n \<Longrightarrow> n \<le> maxUint64 \<Longrightarrow>
   ParseUint_digits s n =
     (if decimal s n \<le> maxUint64 then (decimal s n, None) else (maxUint64, Some ErrRange))"
proof (induction s arbitrary: n)
  case Nil
  then show ?case by simp
next
  case (Cons c s)
  then have d: "0 \<le> digit_value c" "digit_value c \<le> 9" and tl: "list_all is_digit s"
    and c: "is_digit c"
    using digit_value_range [of c] by simp_all
  let ?m = "n * 10 + digit_value c"
  have mono: "?m \<le> decimal s ?m"
    using decimal_ge [OF tl, of ?m] Cons.prems(2) d by simp
  show ?case
  proof (cases "n \<ge> maxUint64 div 10 + 1")
    case True
    then have "maxUint64 < ?m" using d by (simp add: maxUint64_def)
    with mono have "\<not> decimal s ?m \<le> maxUint64" by simp
    with True c show ?thesis by simp
  next
    case False
    then have small: "n * 10 < 2 ^ 64" by (simp add: maxUint64_def)
    then have w1: "uint64_wrap (n * 10) = n * 10"
      using Cons.prems(2) by (simp add: uint64_wrap_def take_bit_int_eq_self)
    show ?thesis
    proof (cases "?m \<le> maxUint64")
      case True
      then have w2: "uint64_wrap ?m = ?m"
        using Cons.prems(2) d by (simp add: uint64_wrap_def take_bit_int_eq_self maxUint64_def)
      from Cons.IH [OF tl, of ?m] True Cons.prems(2) d
      have "ParseUint_digits s ?m =
          (if decimal s ?m \<le> maxUint64 then (decimal s ?m, None) else (maxUint64, Some ErrRange))"
        by simp
      with False c w1 w2 True d show ?thesis by (simp add: Let_def)
    next
      case over: False
      then have ge: "2 ^ 64 \<le> ?m" by (simp add: maxUint64_def)
      have lt: "?m < 2 * 2 ^ 64" using small d by simp
      have "?m mod 2 ^ 64 = (?m - 2 ^ 64) mod 2 ^ 64"
        by (simp only: minus_mod_self2)
      also have "\<dots> = ?m - 2 ^ 64"
        using ge lt by (intro mod_pos_pos_trivial) simp_all
      finally have "uint64_wrap ?m = ?m - 2 ^ 64"
        unfolding uint64_wrap_def take_bit_eq_mod .
      then have w2: "uint64_wrap ?m < n * 10" using d by simp
      from over mono have "\<not> decimal s ?m \<le> maxUint64" by simp
      with False c w1 w2 show ?thesis by (simp add: Let_def)
    qed
  qed
qed

lemma ParseUint_digits_nonneg: "0 \<le> n \<Longrightarrow> 0 \<le> fst (ParseUint_digits s n)"
proof (induction s arbitrary: n)
  case Nil
  then show ?case by simp
next
  case (Cons c s)
  have "0 \<le> uint64_wrap (uint64_wrap (n * 10) + digit_value c)"
    by (simp add: uint64_wrap_def)
  from Cons.IH [OF this] show ?case by (simp add: Let_def maxUint64_def)
qed

lemma is_digit_no_sign: "is_digit c \<Longrightarrow> c \<noteq> CHR ''-'' \<and> c \<noteq> CHR ''+''"
  by (auto simp: is_digit_def)

lemma Atoi_digits_nonneg: "Atoi_digits s 0 = Some n \<Longrightarrow> 0 \<le> n"
  using decimal_ge [of s 0] by (simp add: Atoi_digits_decimal split: if_splits)

lemma ParseUint_nonneg: "0 \<le> fst (ParseUint s)"
  using ParseUint_digits_nonneg [of 0 s] by (simp add: ParseUint_def)

lemma Atoi_slow: "\<not> (0 < length s \<and> length s < 19) \<Longrightarrow> Atoi s = ParseInt s"
  unfolding Atoi_def by (rule if_not_P)

lemma Atoi_fast:
  "0 < length s \<and> length s < 19 \<Longrightarrow>
   Atoi s =
     (if (hd s = CHR ''-'' \<or> hd s = CHR ''+'')
          \<and> length (if hd s = CHR ''-'' \<or> hd s = CHR ''+'' then tl s else s) < 1
      then (0, Some ErrSyntax)
      else
        (case Atoi_digits (if hd s = CHR ''-'' \<or> hd s = CHR ''+'' then tl s else s) 0 of
           None \<Rightarrow> (0, Some ErrSyntax)
         | Some n \<Rightarrow> ((if hd s = CHR ''-'' then - n else n), None)))"
  unfolding Atoi_def Let_def by (rule if_P)

lemma ParseInt_Cons:
  "ParseInt (c # cs) =
     (case ParseUint (if c = CHR ''+'' \<or> c = CHR ''-'' then cs else c # cs) of
        (un, err) \<Rightarrow>
          if err \<noteq> None \<and> err \<noteq> Some ErrRange then (0, err)
          else if c \<noteq> CHR ''-'' \<and> un \<ge> 2 ^ 63 then (2 ^ 63 - 1, Some ErrRange)
          else if c = CHR ''-'' \<and> un > 2 ^ 63 then (- (2 ^ 63), Some ErrRange)
          else ((if c = CHR ''-'' then int64_wrap (- int64_wrap un) else int64_wrap un), None))"
  unfolding ParseInt_def Let_def list.case by (simp split: prod.splits)

lemma ParseInt_nonneg: "\<not> minus_sign s \<Longrightarrow> 0 \<le> fst (ParseInt s)"
proof (cases s)
  case Nil
  then show ?thesis by (simp add: ParseInt_def)
next
  case (Cons c cs)
  assume "\<not> minus_sign s"
  with Cons have c: "c \<noteq> CHR ''-''" by (simp add: minus_sign_def)
  obtain un err where p: "ParseUint (if c = CHR ''+'' \<or> c = CHR ''-'' then cs else c # cs) = (un, err)"
    by (cases "ParseUint (if c = CHR ''+'' \<or> c = CHR ''-'' then cs else c # cs)")
  have un: "0 \<le> un"
    using ParseUint_nonneg [of "if c = CHR ''+'' \<or> c = CHR ''-'' then cs else c # cs"] p by simp
  have "int64_wrap un = un" if "\<not> 2 ^ 63 \<le> un"
    using that un by (intro int64_wrap_id) (simp_all add: MinInt64_def MaxInt64_def)
  with un c show ?thesis
    unfolding Cons ParseInt_Cons p by simp
qed

lemma Atoi_nonneg: "\<not> minus_sign s \<Longrightarrow> 0 \<le> fst (Atoi s)"
proof (cases "0 < length s \<and> length s < 19")
  case False
  assume "\<not> minus_sign s"
  then show ?thesis unfolding Atoi_slow [OF False] by (rule ParseInt_nonneg)
next
  case True
  assume "\<not> minus_sign s"
  with True have hd: "hd s \<noteq> CHR ''-''" by (cases s) (simp_all add: minus_sign_def)
  then show ?thesis
    unfolding Atoi_fast [OF True]
    by (auto dest: Atoi_digits_nonneg split: option.splits)
qed

lemma ParseInt_minus:
  assumes "ds \<noteq> []" and "list_all is_digit ds"
  shows "fst (ParseInt (CHR ''-'' # ds)) = max MinInt64 (- decimal ds 0)"
proof -
  let ?n = "decimal ds 0"
  have p: "ParseUint ds =
      (if ?n \<le> maxUint64 then (?n, None) else (maxUint64, Some ErrRange))"
    using assms ParseUint_digits_decimal [of ds 0] by (simp add: ParseUint_def maxUint64_def)
  have n0: "0 \<le> ?n" using decimal_ge [OF assms(2), of 0] by simp
  consider "maxUint64 < ?n" | "2 ^ 63 < ?n" "?n \<le> maxUint64" | "?n = 2 ^ 63" | "?n < 2 ^ 63"
    by linarith
  then show ?thesis
  proof cases
    case 1
    with p show ?thesis by (simp add: ParseInt_def Let_def maxUint64_def MinInt64_def)
  next
    case 2
    with p show ?thesis by (simp add: ParseInt_def Let_def MinInt64_def)
  next
    case 3
    with p show ?thesis
      by (simp add: ParseInt_def Let_def MinInt64_def maxUint64_def int64_wrap_def)
  next
    case 4
    then have a: "int64_wrap ?n = ?n" using n0
      by (intro int64_wrap_id) (simp_all add: MinInt64_def MaxInt64_def)
    have b: "int64_wrap (- ?n) = - ?n" using 4 n0
      by (intro int64_wrap_id) (simp_all add: MinInt64_def MaxInt64_def)
    from 4 have "?n \<le> maxUint64" by (simp add: maxUint64_def)
    with p 4 a b show ?thesis by (simp add: ParseInt_def Let_def MinInt64_def)
  qed
qed

lemma decimal_short:
  assumes "list_all is_digit ds" and "length ds < 18"
  shows "decimal ds 0 < 2 ^ 63"
proof -
  have "decimal ds 0 < 10 ^ length ds" using decimal_less [OF assms(1), of 0] by simp
  also have "(10::int) ^ length ds \<le> 10 ^ 17"
    using assms(2) by (intro power_increasing) simp_all
  also have "(10::int) ^ 17 < 2 ^ 63" by simp
  finally show ?thesis .
qed

lemma Atoi_minus:
  assumes "ds \<noteq> []" and "list_all is_digit ds"
  shows "fst (Atoi (CHR ''-'' # ds)) = max MinInt64 (- decimal ds 0)"
proof (cases "length ds < 18")
  case False
  then show ?thesis using ParseInt_minus [OF assms] by (simp add: Atoi_def)
next
  case True
  have "decimal ds 0 < 2 ^ 63" using assms(2) True by (rule decimal_short)
  then have "max MinInt64 (- decimal ds 0) = - decimal ds 0" by (simp add: MinInt64_def)
  with True assms show ?thesis
    by (simp add: Atoi_def Let_def Atoi_digits_decimal)
qed

lemma ParseInt_digits:
  assumes "ds \<noteq> []" and "list_all is_digit ds"
  shows "fst (ParseInt ds) = min MaxInt64 (decimal ds 0)"
proof -
  let ?n = "decimal ds 0"
  obtain c cs where ds: "ds = c # cs" using assms(1) by (cases ds) simp_all
  with assms(2) have c: "c \<noteq> CHR ''-''" "c \<noteq> CHR ''+''" using is_digit_no_sign [of c] by simp_all
  have p: "ParseUint ds =
      (if ?n \<le> maxUint64 then (?n, None) else (maxUint64, Some ErrRange))"
    using assms ParseUint_digits_decimal [of ds 0] by (simp add: ParseUint_def maxUint64_def)
  have n0: "0 \<le> ?n" using decimal_ge [OF assms(2), of 0] by simp
  consider "maxUint64 < ?n" | "2 ^ 63 \<le> ?n" "?n \<le> maxUint64" | "?n < 2 ^ 63"
    by linarith
  then show ?thesis
  proof cases
    case 1
    with p c show ?thesis unfolding ds [symmetric] ParseInt_def
      by (simp add: ds Let_def maxUint64_def MaxInt64_def)
  next
    case 2
    with p c show ?thesis unfolding ParseInt_def
      by (simp add: ds Let_def MaxInt64_def)
  next
    case 3
    then have a: "int64_wrap ?n = ?n" using n0
      by (intro int64_wrap_id) (simp_all add: MinInt64_def MaxInt64_def)
    from 3 have "?n \<le> maxUint64" by (simp add: maxUint64_def)
    with p 3 a c show ?thesis unfolding ParseInt_def
      by (simp add: ds Let_def MaxInt64_def)
  qed
qed

lemma Atoi_digits_value:
  assumes "ds \<noteq> []" and "list_all is_digit ds"
  shows "fst (Atoi ds) = min MaxInt64 (decimal ds 0)"
proof (cases "length ds < 19")
  case False
  then show ?thesis using ParseInt_digits [OF assms] by (simp add: Atoi_def)
next
  case True
  obtain c cs where ds: "ds = c # cs" using assms(1) by (cases ds) simp_all
  with assms(2) have c: "c \<noteq> CHR ''-''" "c \<noteq> CHR ''+''" using is_digit_no_sign [of c] by simp_all
  have "decimal ds 0 < 10 ^ length ds" using decimal_less [OF assms(2), of 0] by simp
  also have "(10::int) ^ length ds \<le> 10 ^ 18"
    using True by (intro power_increasing) simp_all
  also have "(10::int) ^ 18 < 2 ^ 63" by simp
  finally have "min MaxInt64 (decimal ds 0) = decimal ds 0" by (simp add: MaxInt64_def)
  with True assms c show ?thesis
    by (simp add: Atoi_def Let_def Atoi_digits_decimal ds)
qed

section \<open>Parsing a list request\<close>

lemma ParseQuery_param_Page_other:
  "fst kv \<noteq> ''page'' \<Longrightarrow> Page (ParseQuery_param kv q) = Page q"
  by (simp add: ParseQuery_param_def split: list.splits)

lemma ParseQuery_param_PerPage_other:
  "fst kv \<noteq> ''per_page'' \<Longrightarrow> PerPage (ParseQuery_param kv q) = PerPage q"
  by (simp add: ParseQuery_param_def split: list.splits)

lemma fold_ParseQuery_param_Page_absent:
  "''page'' \<notin> fst ` set params \<Longrightarrow> Page (fold ParseQuery_param params q) = Page q"
  by (induction params arbitrary: q) (auto simp: ParseQuery_param_Page_other)

lemma fold_ParseQuery_param_PerPage_absent:
  "''per_page'' \<notin> fst ` set params \<Longrightarrow> PerPage (fold ParseQuery_param params q) = PerPage q"
  by (induction params arbitrary: q) (auto simp: ParseQuery_param_PerPage_other)

lemma fold_ParseQuery_param_Page_nonneg:
  "no_minus ''page'' params \<Longrightarrow> 0 \<le> Page q \<Longrightarrow> 0 \<le> Page (fold ParseQuery_param params q)"
proof (induction params arbitrary: q)
  case Nil
  then show ?case by simp
next
  case (Cons kv params)
  from Cons.prems have "0 \<le> Page (ParseQuery_param kv q)"
    by (auto simp: no_minus_def ParseQuery_param_def Atoi_nonneg split: list.splits)
  moreover from Cons.prems have "no_minus ''page'' params"
    by (simp add: no_minus_def)
  ultimately show ?case using Cons.IH by simp
qed

lemma fold_ParseQuery_param_PerPage_nonneg:
  "no_minus ''per_page'' params \<Longrightarrow> 0 \<le> PerPage q \<Longrightarrow>
   0 \<le> PerPage (fold ParseQuery_param params q)"
proof (induction params arbitrary: q)
  case Nil
  then show ?case by simp
next
  case (Cons kv params)
  from Cons.prems have "0 \<le> PerPage (ParseQuery_param kv q)"
    by (auto simp: no_minus_def ParseQuery_param_def Atoi_nonneg split: list.splits)
  moreover from Cons.prems have "no_minus ''per_page'' params"
    by (simp add: no_minus_def)
  ultimately show ?case using Cons.IH by simp
qed

lemma fold_ParseQuery_param_Page_given:
  "distinct (map fst params) \<Longrightarrow> map_of params ''page'' = Some (v # vs) \<Longrightarrow>
   Page (fold ParseQuery_param params q) = fst (Atoi v)"
proof (induction params arbitrary: q)
  case Nil
  then show ?case by simp
next
  case (Cons kv params)
  show ?case
  proof (cases "fst kv = ''page''")
    case True
    with Cons.prems have v: "snd kv = v # vs" and absent: "''page'' \<notin> fst ` set params"
      by (cases kv; simp)+
    from True v have "Page (ParseQuery_param kv q) = fst (Atoi v)"
      by (simp add: ParseQuery_param_def)
    with absent show ?thesis by (simp add: fold_ParseQuery_param_Page_absent)
  next
    case False
    with Cons.prems have "distinct (map fst params)" "map_of params ''page'' = Some (v # vs)"
      by (cases kv; simp)+
    then show ?thesis using Cons.IH by simp
  qed
qed

lemma fold_ParseQuery_param_PerPage_given:
  "distinct (map fst params) \<Longrightarrow> map_of params ''per_page'' = Some (v # vs) \<Longrightarrow>
   PerPage (fold ParseQuery_param params q) = fst (Atoi v)"
proof (induction params arbitrary: q)
  case Nil
  then show ?case by simp
next
  case (Cons kv params)
  show ?case
  proof (cases "fst kv = ''per_page''")
    case True
    with Cons.prems have v: "snd kv = v # vs" and absent: "''per_page'' \<notin> fst ` set params"
      by (cases kv; simp)+
    from True v have "PerPage (ParseQuery_param kv q) = fst (Atoi v)"
      by (simp add: ParseQuery_param_def)
    with absent show ?thesis by (simp add: fold_ParseQuery_param_PerPage_absent)
  next
    case False
    with Cons.prems have "distinct (map fst params)" "map_of params ''per_page'' = Some (v # vs)"
      by (cases kv; simp)+
    then show ?thesis using Cons.IH by simp
  qed
qed

lemma ParseQuery_Page:
  "Page (ParseQuery params) =
     (if Page (fold ParseQuery_param params empty_Query) = 0 then 1
      else Page (fold ParseQuery_param params empty_Query))"
  by (simp add: ParseQuery_def Let_def)

lemma ParseQuery_PerPage:
  "PerPage (ParseQuery params) =
     (if PerPage (fold ParseQuery_param params empty_Query) = 0 then 20
      else PerPage (fold ParseQuery_param params empty_Query))"
  by (simp add: ParseQuery_def Let_def)

lemma ParseQuery_Page_given:
  "distinct (map fst params) \<Longrightarrow> map_of params ''page'' = Some (v # vs) \<Longrightarrow>
   Page (ParseQuery params) = (if fst (Atoi v) = 0 then 1 else fst (Atoi v))"
  by (simp add: ParseQuery_Page fold_ParseQuery_param_Page_given)

lemma ParseQuery_PerPage_given:
  "distinct (map fst params) \<Longrightarrow> map_of params ''per_page'' = Some (v # vs) \<Longrightarrow>
   PerPage (ParseQuery params) = (if fst (Atoi v) = 0 then 20 else fst (Atoi v))"
  by (simp add: ParseQuery_PerPage fold_ParseQuery_param_PerPage_given)

lemma Atoi_minus_value:
  "ds \<noteq> [] \<Longrightarrow> list_all is_digit ds \<Longrightarrow> decimal ds 0 \<noteq> 0 \<Longrightarrow>
   fst (Atoi (CHR ''-'' # ds)) = max MinInt64 (- decimal ds 0) \<and> fst (Atoi (CHR ''-'' # ds)) < 0"
  using decimal_ge [of ds 0] by (simp add: Atoi_minus MinInt64_def)

lemma Atoi_plain_value:
  "ds \<noteq> [] \<Longrightarrow> list_all is_digit ds \<Longrightarrow> decimal ds 0 \<noteq> 0 \<Longrightarrow>
   fst (Atoi ds) = min MaxInt64 (decimal ds 0) \<and> 0 < fst (Atoi ds)"
  using decimal_ge [of ds 0] by (simp add: Atoi_digits_value MaxInt64_def)

section \<open>The statements of the repository, executed\<close>

lemma project_task_columns: "project task_columns r = Some (task_row r)"
  by (simp add: task_columns_def column_def task_row_def)

lemma project_all_task_columns: "project_all task_columns rs = Some (map task_row rs)"
  by (induction rs) (simp_all add: project_task_columns)

lemma set_columns_task_row: "set_columns (task_row r) t = Some r"
  by (simp add: task_row_def set_column_def)

lemma scan_all_task_rows: "scan_all (map task_row rs) = Some rs"
  by (induction rs) (simp_all add: set_columns_task_row)

lemma run_failing:
  "failing d = Some msg \<Longrightarrow>
   run stmt args d = (Inl (Error msg), d\<lparr>faults := tl (faults d)\<rparr>)"
  by (auto simp: failing_def run_def split: list.splits option.splits)

lemma run_ok:
  "failing d = None \<Longrightarrow> run stmt args d = execute stmt args (d\<lparr>faults := tl (faults d)\<rparr>)"
  by (cases d) (auto simp: failing_def run_def split: list.splits option.splits)

subsection \<open>The loop over the filter\<close>

lemma List_filter_other: "\<not> filterable fv \<Longrightarrow> List_filter fv acc = acc"
  by (cases acc) (simp add: List_filter_def filterable_def)

lemma fold_List_filter:
  "fold List_filter fs (args, conds, Suc (length args)) =
     (args @ map (\<lambda>fv. SqlText (snd fv)) (filter filterable fs),
      conds @ zip (map fst (filter filterable fs))
                  [Suc (length args) ..< Suc (length args) + length (filter filterable fs)],
      Suc (length args) + length (filter filterable fs))"
proof (induction fs arbitrary: args conds)
  case Nil
  then show ?case by simp
next
  case (Cons fv fs)
  show ?case
  proof (cases "filterable fv")
    case True
    then have step: "List_filter fv (args, conds, Suc (length args)) =
        (args @ [SqlText (snd fv)], conds @ [(fst fv, Suc (length args))],
         Suc (length (args @ [SqlText (snd fv)])))"
      by (simp add: List_filter_def filterable_def)
    show ?thesis
      using True Cons.IH [of "args @ [SqlText (snd fv)]" "conds @ [(fst fv, Suc (length args))]"]
      by (simp add: step upt_conv_Cons del: upt_Suc)
  next
    case False
    then show ?thesis using Cons.IH [of args conds] by (simp add: List_filter_other)
  qed
qed

lemma fold_List_filter_start:
  "fold List_filter fs ([], [], 1) =
     (List_args (filter filterable fs), List_conditions (filter filterable fs),
      Suc (length (filter filterable fs)))"
  using fold_List_filter [of fs "[]" "[]"]
  by (simp add: List_args_def List_conditions_def del: upt_Suc)

lemma arg_append_mid: "arg (pre @ v # post) (Suc (length pre)) = Some v"
  by (simp add: arg_def)

lemma bind_conds_zip:
  "bind_conds (zip (map fst ws) [Suc (length pre) ..< Suc (length pre) + length ws])
              (pre @ map (\<lambda>fv. SqlText (snd fv)) ws @ post) = bind_filter ws"
proof (induction ws arbitrary: pre)
  case Nil
  then show ?case by simp
next
  case (Cons w ws)
  have "bind_conds (zip (map fst ws) [Suc (length (pre @ [SqlText (snd w)])) ..<
            Suc (length (pre @ [SqlText (snd w)])) + length ws])
          ((pre @ [SqlText (snd w)]) @ map (\<lambda>fv. SqlText (snd fv)) ws @ post) = bind_filter ws"
    by (rule Cons.IH)
  then show ?case
    by (simp add: upt_conv_Cons arg_append_mid del: upt_Suc split: option.splits)
qed

lemma bind_conds_filter:
  "bind_conds (List_conditions ws) (List_args ws @ post) = bind_filter ws"
  using bind_conds_zip [of ws "[]" post]
  by (simp add: List_args_def List_conditions_def del: upt_Suc)

lemma arg_limit: "arg (List_args ws @ [x, y]) (Suc (length ws)) = Some x"
  by (simp add: arg_def nth_append List_args_def)

lemma arg_offset: "arg (List_args ws @ [x, y]) (Suc (Suc (length ws))) = Some y"
  by (simp add: arg_def nth_append List_args_def)

lemma bind_filter_satisfies:
  "bind_filter (filter filterable fs) = Some bs \<Longrightarrow> satisfies bs r = exact_match fs r"
proof (induction fs arbitrary: bs)
  case Nil
  then show ?case by (simp add: satisfies_def exact_match_def)
next
  case (Cons fv fs)
  show ?case
  proof (cases "filterable fv")
    case False
    then show ?thesis using Cons
      by (auto simp: exact_match_def filterable_def)
  next
    case True
    with Cons.prems obtain v' bs' where
      v': "coerce (fst fv) (SqlText (snd fv)) = Some v'"
      and bs': "bind_filter (filter filterable fs) = Some bs'" and bs: "bs = (fst fv, v') # bs'"
      by (auto split: option.splits)
    have head: "(column (fst fv) r = Some v') =
        (if fst fv = ''status'' then Status r = snd fv
         else if fst fv = ''assignee_id'' then AssigneeID r = fst (Atoi (snd fv))
         else if fst fv = ''title'' then Title r = snd fv else True)"
      using True v'
      by (auto simp: filterable_def coerce_def column_def split: prod.splits option.splits)
    show ?thesis using Cons.IH [OF bs'] head
      by (simp add: bs satisfies_def exact_match_def)
  qed
qed

subsection \<open>The two queries of \<^verbatim>\<open>List\<close>\<close>

lemma execute_count:
  "execute (SELECT_COUNT conds) args d =
     (case bind_conds conds args of
        None \<Rightarrow> (Inl (Error ''invalid input''), d)
      | Some bs \<Rightarrow>
          (Inr ([[(''count'', SqlInt (int (length (filter (satisfies bs) (table d)))))]], 1), d))"
  by (simp add: execute_def statement_error_def split: option.splits)

lemma GetContext_int_count:
  assumes "GetContext_int (SELECT_COUNT conds) args d = (Inr n, d')"
  shows "\<exists>bs. bind_conds conds args = Some bs
           \<and> n = int (length (filter (satisfies bs) (table d))) \<and> table d' = table d"
proof (cases "failing d")
  case None
  with assms show ?thesis
    by (auto simp: GetContext_int_def run_ok execute_count split: option.splits)
next
  case (Some msg)
  with assms show ?thesis by (simp add: GetContext_int_def run_failing)
qed

lemma execute_page:
  "execute (SELECT task_columns conds (Some (a, b))) args d =
     (case bind_conds conds args of
        None \<Rightarrow> (Inl (Error ''invalid input''), d)
      | Some bs \<Rightarrow>
          (case (arg args a, arg args b) of
             (Some (SqlInt limit), Some (SqlInt offset)) \<Rightarrow>
               if limit < 0 then (Inl (Error ''LIMIT must not be negative''), d)
               else if offset < 0 then (Inl (Error ''OFFSET must not be negative''), d)
               else (Inr (map task_row (take (nat limit) (drop (nat offset)
                            (filter (satisfies bs) (table d)))),
                          int (length (take (nat limit) (drop (nat offset)
                            (filter (satisfies bs) (table d)))))), d)
           | _ \<Rightarrow> (Inl (Error ''invalid input''), d)))"
  by (simp add: execute_def statement_error_def project_all_task_columns
           split: option.splits sql_value.splits)

lemma SelectContext_page:
  assumes "SelectContext (SELECT task_columns conds (Some (a, b))) args d = (Inr ts, d')"
  shows "\<exists>bs limit offset. bind_conds conds args = Some bs
           \<and> arg args a = Some (SqlInt limit) \<and> arg args b = Some (SqlInt offset)
           \<and> 0 \<le> limit \<and> 0 \<le> offset
           \<and> ts = take (nat limit) (drop (nat offset) (filter (satisfies bs) (table d)))
           \<and> table d' = table d"
proof (cases "failing d")
  case None
  with assms show ?thesis
    by (auto simp: SelectContext_def run_ok execute_page scan_all_task_rows
             split: option.splits sql_value.splits if_splits)
next
  case (Some msg)
  with assms show ?thesis by (simp add: SelectContext_def run_failing)
qed

lemma postgres_Task_List_unfold:
  "postgres_Task_List q d =
     (case GetContext_int (SELECT_COUNT (List_conditions (filter filterable (Filter q))))
             (List_args (filter filterable (Filter q))) d of
        (Inl err, d') \<Rightarrow> (Inl err, d')
      | (Inr totalCount, d') \<Rightarrow>
          (case SelectContext
                  (SELECT task_columns (List_conditions (filter filterable (Filter q)))
                     (Some (Suc (length (filter filterable (Filter q))),
                            Suc (length (filter filterable (Filter q))) + 1)))
                  (List_args (filter filterable (Filter q))
                     @ [SqlInt (PerPage q), SqlInt (page_offset q)]) d' of
             (Inl err, d'') \<Rightarrow> (Inl err, d'')
           | (Inr tasks, d'') \<Rightarrow> (Inr (tasks, totalCount), d'')))"
  unfolding postgres_Task_List_def fold_List_filter_start page_offset_def Let_def
  by simp

lemma postgres_Task_List_success:
  assumes "postgres_Task_List q d = (Inr (ts, n), d')"
  shows "ts = take (nat (PerPage q)) (drop (nat (page_offset q))
                (filter (exact_match (Filter q)) (table d)))"
    and "n = int (length (filter (exact_match (Filter q)) (table d)))"
    and "0 \<le> PerPage q" and "0 \<le> page_offset q" and "table d' = table d"
proof -
  let ?ws = "filter filterable (Filter q)"
  from assms obtain d1 where
    cnt: "GetContext_int (SELECT_COUNT (List_conditions ?ws)) (List_args ?ws) d = (Inr n, d1)"
    and sel: "SelectContext (SELECT task_columns (List_conditions ?ws)
                 (Some (Suc (length ?ws), Suc (length ?ws) + 1)))
                (List_args ?ws @ [SqlInt (PerPage q), SqlInt (page_offset q)]) d1 = (Inr ts, d')"
    by (auto simp: postgres_Task_List_unfold split: prod.splits sum.splits)
  from GetContext_int_count [OF cnt] bind_conds_filter [of ?ws "[]"] obtain bs where
    bs: "bind_filter ?ws = Some bs" and n: "n = int (length (filter (satisfies bs) (table d)))"
    and t1: "table d1 = table d"
    by auto
  from SelectContext_page [OF sel] bs have
    lim: "0 \<le> PerPage q" and off: "0 \<le> page_offset q"
    and ts: "ts = take (nat (PerPage q)) (drop (nat (page_offset q))
                    (filter (satisfies bs) (table d1)))"
    and t2: "table d' = table d1"
    by (auto simp: bind_conds_filter arg_limit arg_offset)
  have sat: "satisfies bs = exact_match (Filter q)"
    using bind_filter_satisfies [OF bs] by (rule ext)
  show "ts = take (nat (PerPage q)) (drop (nat (page_offset q))
              (filter (exact_match (Filter q)) (table d)))"
    using ts t1 sat by simp
  show "n = int (length (filter (exact_match (Filter q)) (table d)))" using n sat by simp
  show "0 \<le> PerPage q" by (rule lim)
  show "0 \<le> page_offset q" by (rule off)
  show "table d' = table d" using t1 t2 by simp
qed

lemma filterable_update:
  "\<not> filterable (f, v) \<Longrightarrow> filter filterable (AList.update f v fs) = filter filterable fs"
  by (induction fs) (auto simp: filterable_def)

lemma filterable_delete:
  "\<not> filterable (f, v) \<Longrightarrow> filter filterable (AList.delete f fs) = filter filterable fs"
  by (induction fs) (auto simp: filterable_def)

lemma postgres_Task_List_cong:
  assumes "filter filterable (Filter q') = filter filterable (Filter q)"
    and "Page q' = Page q" and "PerPage q' = PerPage q"
  shows "postgres_Task_List q' d = postgres_Task_List q d"
  unfolding postgres_Task_List_unfold page_offset_def assms by (rule refl)

subsection \<open>The statements addressed to one task\<close>

lemma satisfies_id: "satisfies [(''id'', SqlInt i)] r = (ID r = i)"
  by (simp add: satisfies_def column_def)






subsection \<open>The update statement\<close>

lemma bind_sets_update:
  "bind_sets [(''title'', Param (Suc 0)), (''description'', Param 2), (''status'', Param 3),
              (''updated_at'', Now)]
     [SqlText a, SqlText b, SqlText c, SqlInt i] now
   = Some [(''title'', SqlText a), (''description'', SqlText b), (''status'', SqlText c),
           (''updated_at'', SqlTime now)]"
  by (simp add: eval_expr_def arg_def coerce_def)

lemma store_update:
  "store [(''title'', SqlText (Title t)), (''description'', SqlText (Description t)),
          (''status'', SqlText (Status t)), (''updated_at'', SqlTime now)] r = written t now r"
  by (simp add: store_def set_column_def written_def)

lemma execute_update:
  "execute (UPDATE [(''title'', Param (Suc 0)), (''description'', Param 2), (''status'', Param 3),
                    (''updated_at'', Now)] [(''id'', 4)] task_columns)
     [SqlText (Title t), SqlText (Description t), SqlText (Status t), SqlInt (ID t)] d =
   (Inr (map task_row (map (written t (clock d)) (filter (\<lambda>r. ID r = ID t) (table d))),
         int (length (filter (\<lambda>r. ID r = ID t) (table d)))),
    d\<lparr>table := map (\<lambda>r. if ID r = ID t then written t (clock d) r else r) (table d)\<rparr>)"
proof -
  have sets: "bind_sets [(''title'', Param (Suc 0)), (''description'', Param 2),
                (''status'', Param 3), (''updated_at'', Now)]
        [SqlText (Title t), SqlText (Description t), SqlText (Status t), SqlInt (ID t)] (clock d)
      = Some [(''title'', SqlText (Title t)), (''description'', SqlText (Description t)),
              (''status'', SqlText (Status t)), (''updated_at'', SqlTime (clock d))]"
    by (rule bind_sets_update)
  have conds: "bind_conds [(''id'', 4)]
        [SqlText (Title t), SqlText (Description t), SqlText (Status t), SqlInt (ID t)]
      = Some [(''id'', SqlInt (ID t))]"
    by (simp add: arg_def coerce_def)
  show ?thesis
    unfolding execute_def sql_stmt.case sets conds Let_def
    by (simp add: project_all_task_columns satisfies_id [abs_def] store_update [abs_def])
qed

lemma postgres_Task_Update_unfold:
  "postgres_Task_Update t d =
     (case failing d of
        Some msg \<Rightarrow> (Inl (Error msg), next_statement d)
      | None \<Rightarrow>
          (case filter (\<lambda>r. ID r = ID t) (table d) of
             [] \<Rightarrow> Inl ErrTaskNotFound
           | r # rs \<Rightarrow> Inr (written t (clock d) r),
           (next_statement d)\<lparr>table :=
              map (\<lambda>r. if ID r = ID t then written t (clock d) r else r) (table d)\<rparr>))"
proof (cases "failing d")
  case None
  have clk: "clock (d\<lparr>faults := tl (faults d)\<rparr>) = clock d" by simp
  from None show ?thesis
    by (simp add: postgres_Task_Update_def GetContext_Task_def run_ok execute_update
          next_statement_def set_columns_task_row split: list.splits)
next
  case (Some msg)
  then show ?thesis
    by (simp add: postgres_Task_Update_def GetContext_Task_def run_failing next_statement_def)
qed


lemma map_written:
  "map ID (map (\<lambda>r. if ID r = i then written t now r else r) rs) = map ID rs"
  "map AssigneeID (map (\<lambda>r. if ID r = i then written t now r else r) rs) = map AssigneeID rs"
  "map CreatedAt (map (\<lambda>r. if ID r = i then written t now r else r) rs) = map CreatedAt rs"
  by (induction rs) (simp_all add: written_def)

lemma postgres_Task_Update_table:
  "table (snd (postgres_Task_Update t d)) =
     (if failing d = None
      then map (\<lambda>r. if ID r = ID t then written t (clock d) r else r) (table d)
      else table d)"
  by (simp add: postgres_Task_Update_unfold next_statement_def split: option.splits)

lemma postgres_Task_Update_frame:
  "map ID (table (snd (postgres_Task_Update t d))) = map ID (table d)"
  "map AssigneeID (table (snd (postgres_Task_Update t d))) = map AssigneeID (table d)"
  "map CreatedAt (table (snd (postgres_Task_Update t d))) = map CreatedAt (table d)"
  by (cases "failing d = None"; simp only: postgres_Task_Update_table map_written if_True if_False)+

lemma TaskUpdate_state:
  "snd (TaskUpdate h p body w) =
     (if p = [] then w
      else (case ParseInt p of
              (taskID, Some err) \<Rightarrow> w
            | (taskID, None) \<Rightarrow>
                (case ShouldBindJSON_UpdateTaskRequest body of
                   Inl err \<Rightarrow> w
                 | Inr req \<Rightarrow>
                     snd (svc_Update h
                            \<lparr>ID = taskID, Title = req_Title req,
                             Description = req_Description req, Status = req_Status req,
                             AssigneeID = req_AssigneeID req, CreatedAt = 0, UpdatedAt = 0\<rparr> w))))"
  by (simp add: TaskUpdate_def Let_def split: prod.splits sum.splits option.splits)

lemma service_Task_Update_table:
  "table (fst (snd (svc_Update (NewTaskService NewTaskRepository) task (d, m))))
     = table (snd (postgres_Task_Update task d))"
  by (simp add: NewTaskService_def service_Task_Update_def NewTaskRepository_def
        split: prod.splits)

lemma TaskUpdate_frame:
  "map AssigneeID (table (fst (snd (TaskUpdate (NewTaskService NewTaskRepository) p body (d, m)))))
     = map AssigneeID (table d)"
  unfolding TaskUpdate_state
  by (simp add: service_Task_Update_table postgres_Task_Update_frame
        split: prod.splits sum.splits option.splits)

section \<open>The service over a recorded repository\<close>

lemma service_Task_List_Recorded:
  "service_Task_List (Recorded taskRepo) q ((s, calls), m) =
     (fst (repo_List taskRepo q s),
      (snd (repo_List taskRepo q s), calls @ [Call_List q]),
      Observe ''GET'' (error_of (fst (repo_List taskRepo q s))) m)"
  by (simp add: service_Task_List_def Recorded_def split: prod.splits)

lemma service_Task_List_result:
  "fst (service_Task_List taskRepo q (s, m)) = fst (repo_List taskRepo q s)"
  "fst (snd (service_Task_List taskRepo q (s, m))) = snd (repo_List taskRepo q s)"
  by (simp_all add: service_Task_List_def split: prod.splits)

lemma List_calls_append: "List_calls (cs @ cs') = List_calls cs @ List_calls cs'"
  by (simp add: List_calls_def)

lemma List_calls_List: "List_calls (Call_List q # cs) = q # List_calls cs"
  by (simp add: List_calls_def)

lemma List_calls_Nil: "List_calls [] = []"
  by (simp add: List_calls_def)

lemma List_times_Recorded:
  "snd (fst (List_times (Recorded taskRepo) q n ((s, calls), m)))
     = calls @ replicate n (Call_List q)"
proof (induction n arbitrary: s calls m)
  case 0
  then show ?case by simp
next
  case (Suc n)
  show ?case
    by (simp add: service_Task_List_Recorded Suc.IH replicate_app_Cons_same)
qed

lemma List_calls_replicate: "List_calls (replicate n (Call_List q)) = replicate n q"
  by (induction n) (simp_all add: List_calls_Nil List_calls_List)

subsection \<open>Failures of the two queries of \<^verbatim>\<open>List\<close>\<close>

lemma GetContext_int_failing:
  "failing d = Some msg \<Longrightarrow> GetContext_int stmt args d = (Inl (Error msg), next_statement d)"
  by (simp add: GetContext_int_def run_failing next_statement_def)

lemma SelectContext_failing:
  "failing d = Some msg \<Longrightarrow> SelectContext stmt args d = (Inl (Error msg), next_statement d)"
  by (simp add: SelectContext_def run_failing next_statement_def)

lemma GetContext_int_count_ok:
  "failing d = None \<Longrightarrow> bind_conds conds args = Some bs \<Longrightarrow>
   GetContext_int (SELECT_COUNT conds) args d =
     (Inr (int (length (filter (satisfies bs) (table d)))), next_statement d)"
  by (simp add: GetContext_int_def run_ok execute_count next_statement_def)

lemma postgres_Task_List_count_fails:
  "failing d = Some msg \<Longrightarrow> postgres_Task_List q d = (Inl (Error msg), next_statement d)"
  by (simp add: postgres_Task_List_unfold GetContext_int_failing)

lemma postgres_Task_List_page_fails:
  assumes "failing d = None" and "failing (next_statement d) = Some msg"
    and "bind_filter (filter filterable (Filter q)) = Some bs"
  shows "postgres_Task_List q d = (Inl (Error msg), next_statement (next_statement d))"
proof -
  have "bind_conds (List_conditions (filter filterable (Filter q)))
          (List_args (filter filterable (Filter q))) = Some bs"
    using bind_conds_filter [of "filter filterable (Filter q)" "[]"] assms(3) by simp
  then show ?thesis
    using assms(1,2)
    by (simp add: postgres_Task_List_unfold GetContext_int_count_ok SelectContext_failing)
qed

lemma TaskList_error:
  "fst (svc_List h (ParseQuery params) w) = Inl err \<Longrightarrow>
   fst (TaskList h params w) = JSON 500 InternalServerError"
  by (auto simp: TaskList_def Let_def split: prod.splits sum.splits)

section \<open>The handler of a create request\<close>

lemma IsValid_iff:
  "IsValid s \<longleftrightarrow> s \<in> {''pending'', ''in_progress'', ''done'', ''canceled''}"
  by (auto simp: IsValid_def TaskStatusPending_def TaskStatusInProgress_def TaskStatusDone_def
        TaskStatusCanceled_def)

lemma TaskCreate_unset:
  assumes "ShouldBindJSON_CreateTaskRequest body = Inr req" and "req_Status req = []"
  shows "TaskCreate h body w =
     (case svc_Create h \<lparr>ID = 0, Title = req_Title req, Description = req_Description req,
                          Status = ''pending'', AssigneeID = req_AssigneeID req,
                          CreatedAt = 0, UpdatedAt = 0\<rparr> w of
        (Inl err, w') \<Rightarrow> (JSON 500 InternalServerError, w')
      | (Inr createdTask, w') \<Rightarrow> (JSON 201 (GetSuccessResponse (TaskData createdTask)), w'))"
  using assms
  by (simp add: TaskCreate_def Let_def IsValid_iff TaskStatusPending_def)

lemma ShouldBindJSON_CreateTaskRequest_Inr:
  "ShouldBindJSON_CreateTaskRequest body = Inr req \<Longrightarrow> body = Some req"
  by (auto simp: ShouldBindJSON_CreateTaskRequest_def Let_def split: option.splits if_splits)

lemma TaskCreate_invalid:
  assumes "req_Status req \<noteq> []"
    and "req_Status req \<notin> {''pending'', ''in_progress'', ''done'', ''canceled''}"
  shows "Code (fst (TaskCreate h (Some req) w)) = 400"
    and "map_option resp_Status (Body (fst (TaskCreate h (Some req) w))) = Some ''fail''"
    and "snd (TaskCreate h (Some req) w) = w"
proof -
  have "TaskCreate h (Some req) w =
          (case ShouldBindJSON_CreateTaskRequest (Some req) of
             Inl err \<Rightarrow> (JSON 400 (GetFailedValidationResponse err), w)
           | Inr r \<Rightarrow> (JSON 400 (GetFailedValidationResponse [InvalidTaskStatus]), w))"
  proof (cases "ShouldBindJSON_CreateTaskRequest (Some req)")
    case (Inl err)
    then show ?thesis by (simp add: TaskCreate_def)
  next
    case (Inr r)
    then have "r = req" by (auto dest: ShouldBindJSON_CreateTaskRequest_Inr)
    with Inr assms show ?thesis by (simp add: TaskCreate_def Let_def IsValid_iff)
  qed
  then show "Code (fst (TaskCreate h (Some req) w)) = 400"
    and "map_option resp_Status (Body (fst (TaskCreate h (Some req) w))) = Some ''fail''"
    and "snd (TaskCreate h (Some req) w) = w"
    by (simp_all add: JSON_def GetFailedValidationResponse_def split: sum.splits)
qed

section \<open>The tests of the repository and of the handlers, on the model\<close>

text \<open>
  Seven tasks listed at page 1 with page size 5 give five tasks and the total 7; deleting
  a task twice gives \<^verbatim>\<open>ErrTaskNotFound\<close> the second time; a task is fetched by its id;
  a create request with the status \<^verbatim>\<open>invalid status\<close> is answered with 400.
\<close>

lemma TestListTasksIntegration:
  "map_sum id (\<lambda>(ts, n). (length ts, n))
     (fst (postgres_Task_List \<lparr>Page = 1, PerPage = 5, Total = 0, TotalPages = 0, Filter = []\<rparr>
             seven_tasks)) = Inr (5, 7)"
  by (simp add: seven_tasks_def List_eval db_eval example_eval)

lemma TestDeleteTaskIntegration:
  "fst (postgres_Task_Delete 1 two_tasks) = None
   \<and> fst (postgres_Task_Delete 1 (snd (postgres_Task_Delete 1 two_tasks))) = Some ErrTaskNotFound"
  by (simp add: postgres_Task_Delete_def db_eval example_eval)

lemma TestGetTaskByIDIntegration:
  "fst (postgres_Task_GetByID 2 two_tasks) = Inr task_B"
  by (simp add: postgres_Task_GetByID_def db_eval example_eval)

lemma TestTaskCreate_InvalidStatus_ShouldReturnBadRequest:
  "Code (fst (TaskCreate h
      (Some \<lparr>req_Title = ''Test'', req_Description = ''desc'', req_Status = ''invalid status'',
             req_AssigneeID = 10\<rparr>) w)) = 400"
  by (simp add: TaskCreate_def ShouldBindJSON_CreateTaskRequest_def IsValid_iff JSON_def)

text \<open>
  \<^verbatim>\<open>strconv.Atoi\<close> at the edges of the 64-bit range, for a sign alone, and for digits
  followed by another byte: where the digits exceed 64 bits before the other byte is
  reached, the range error is returned, with the bound as the value.
\<close>

lemma Atoi_edges:
  "Atoi [] = (0, Some ErrSyntax)"
  "Atoi ''+'' = (0, Some ErrSyntax)"
  "Atoi ''-5'' = (- 5, None)"
  "Atoi ''+42'' = (42, None)"
  "Atoi ''12x'' = (0, Some ErrSyntax)"
  "Atoi ''9223372036854775807'' = (MaxInt64, None)"
  "Atoi ''9223372036854775808'' = (MaxInt64, Some ErrRange)"
  "Atoi ''-9223372036854775808'' = (MinInt64, None)"
  "Atoi ''-9223372036854775809'' = (MinInt64, Some ErrRange)"
  "Atoi ''18446744073709551616'' = (MaxInt64, Some ErrRange)"
  "Atoi ''-9223372036854775809x'' = (0, Some ErrSyntax)"
  "Atoi ''-99999999999999999999x'' = (MinInt64, Some ErrRange)"
  by (simp_all add: Atoi_eval)

section \<open>Claims about the service\<close>

text \<open>
  C1, as the claim states it, fails: the service has no cache. With a database whose
  third statement fails, the first \<^verbatim>\<open>List\<close> for a query succeeds (it sends two
  statements), and the second \<^verbatim>\<open>List\<close> for the same query returns the database's
  error instead of the first result; the repository's \<^verbatim>\<open>List\<close> was called twice.
\<close>

theorem cache_hit_counterexample:
  "fst (service_Task_List (Recorded NewTaskRepository) done_query ((flaky, []), no_metrics))
     = Inr ([task_B], 1)
   \<and> fst (service_Task_List (Recorded NewTaskRepository) done_query
            (snd (service_Task_List (Recorded NewTaskRepository) done_query
                    ((flaky, []), no_metrics))))
     = Inl (Error ''connection lost'')
   \<and> snd (fst (snd (service_Task_List (Recorded NewTaskRepository) done_query
            (snd (service_Task_List (Recorded NewTaskRepository) done_query
                    ((flaky, []), no_metrics))))))
     = [Call_List done_query, Call_List done_query]"
  by (simp add: service_eval done_query_def flaky_def List_eval db_eval example_eval)

text \<open>
  C1, amended. Every \<^verbatim>\<open>List\<close> of the service, also a second one for the same query,
  calls the repository's \<^verbatim>\<open>List\<close> once, on the store as it is at that moment, and
  returns what that call returns; \<open>n\<close> listings for a query make \<open>n\<close> such calls.
\<close>

theorem List_reaches_store:
  "fst (service_Task_List (Recorded taskRepo) q ((s, calls), m)) = fst (repo_List taskRepo q s)
   \<and> fst (snd (service_Task_List (Recorded taskRepo) q ((s, calls), m)))
       = (snd (repo_List taskRepo q s), calls @ [Call_List q])
   \<and> fst (service_Task_List (Recorded taskRepo) q
             (snd (service_Task_List (Recorded taskRepo) q ((s, calls), m))))
       = fst (repo_List taskRepo q (snd (repo_List taskRepo q s)))
   \<and> List_calls (snd (fst (List_times (Recorded taskRepo) q n ((s, calls), m))))
       = List_calls calls @ replicate n q"
  by (simp add: service_Task_List_Recorded List_times_Recorded List_calls_append
        List_calls_replicate)

theorem List_reaches_store_witness:
  "fst (service_Task_List (Recorded NewTaskRepository) done_query ((two_tasks, []), no_metrics))
     = Inr ([task_B], 1)
   \<and> fst (service_Task_List (Recorded NewTaskRepository) done_query
            (snd (service_Task_List (Recorded NewTaskRepository) done_query
                    ((two_tasks, []), no_metrics))))
     = Inr ([task_B], 1)
   \<and> List_calls (snd (fst (List_times (Recorded NewTaskRepository) done_query 3
                              ((two_tasks, []), no_metrics))))
     = [done_query, done_query, done_query]"
proof -
  have run: "postgres_Task_List done_query two_tasks = (Inr ([task_B], 1), two_tasks)"
    by (simp add: done_query_def List_eval db_eval example_eval)
  show ?thesis
    using List_reaches_store [of NewTaskRepository done_query two_tasks "[]" no_metrics 3] run
    by (simp add: NewTaskRepository_def List_calls_def numeral_3_eq_3)
qed

text \<open>
  C4. Whenever the repository's \<^verbatim>\<open>List\<close> returns an error, the service's \<^verbatim>\<open>List\<close>
  returns that error; the repository's \<^verbatim>\<open>List\<close> returns the error of the count
  query or of the page query when either fails; and the handler answers such an error
  with status 500, not with an empty listing.
\<close>

theorem List_error_propagation:
  "(fst (repo_List taskRepo q s) = Inl err \<longrightarrow>
       fst (service_Task_List taskRepo q (s, m)) = Inl err)
   \<and> fst (service_Task_List NewTaskRepository q (d, m)) = fst (postgres_Task_List q d)
   \<and> (failing d = Some msg \<longrightarrow> fst (postgres_Task_List q d) = Inl (Error msg))
   \<and> (failing d = None \<and> failing (next_statement d) = Some msg
        \<and> bind_filter (filter filterable (Filter q)) = Some bs \<longrightarrow>
          fst (postgres_Task_List q d) = Inl (Error msg))
   \<and> (fst (svc_List h (ParseQuery params) w) = Inl err \<longrightarrow>
          fst (TaskList h params w) = JSON 500 InternalServerError)"
proof -
  have a: "fst (service_Task_List taskRepo q (s, m)) = fst (repo_List taskRepo q s)"
    by (rule service_Task_List_result)
  have b: "fst (service_Task_List NewTaskRepository q (d, m)) = fst (postgres_Task_List q d)"
    by (simp add: service_Task_List_result NewTaskRepository_def)
  from a b postgres_Task_List_count_fails [of d msg q]
    postgres_Task_List_page_fails [of d msg q bs] TaskList_error [of h params w err]
  show ?thesis by simp
qed

theorem List_error_propagation_witness:
  "failing broken = Some ''connection refused''
   \<and> fst (repo_List NewTaskRepository done_query broken) = Inl (Error ''connection refused'')
   \<and> fst (service_Task_List NewTaskRepository done_query (broken, no_metrics))
        = Inl (Error ''connection refused'')
   \<and> failing breaking = None \<and> failing (next_statement breaking) = Some ''connection reset''
   \<and> bind_filter (filter filterable (Filter done_query)) = Some [(''status'', SqlText ''done'')]
   \<and> fst (postgres_Task_List done_query breaking) = Inl (Error ''connection reset'')
   \<and> fst (svc_List (NewTaskService NewTaskRepository) (ParseQuery []) (broken, no_metrics))
        = Inl (Error ''connection refused'')
   \<and> fst (TaskList (NewTaskService NewTaskRepository) [] (broken, no_metrics))
        = JSON 500 InternalServerError"
proof -
  have h1: "failing broken = Some ''connection refused''"
    by (simp add: failing_def broken_def)
  have h2: "failing breaking = None \<and> failing (next_statement breaking) = Some ''connection reset''"
    by (simp add: failing_def breaking_def next_statement_def)
  have h3: "bind_filter (filter filterable (Filter done_query)) = Some [(''status'', SqlText ''done'')]"
    by (simp add: done_query_def filterable_def coerce_def)
  have h4: "fst (svc_List (NewTaskService NewTaskRepository) (ParseQuery []) (broken, no_metrics))
        = Inl (Error ''connection refused'')"
    by (simp add: NewTaskService_def service_Task_List_result NewTaskRepository_def
          postgres_Task_List_count_fails [OF h1])
  show ?thesis
    using List_error_propagation [where taskRepo = NewTaskRepository and q = done_query
        and s = broken and err = "Error ''connection refused''" and m = no_metrics and d = broken
        and msg = "''connection refused''" and bs = "[(''status'', SqlText ''done'')]"
        and h = "NewTaskService NewTaskRepository" and params = "[]" and w = "(broken, no_metrics)"]
      List_error_propagation [where taskRepo = NewTaskRepository and q = done_query
        and s = breaking and err = "Error ''connection reset''" and m = no_metrics and d = breaking
        and msg = "''connection reset''" and bs = "[(''status'', SqlText ''done'')]"
        and h = "NewTaskService NewTaskRepository" and params = "[]" and w = "(broken, no_metrics)"]
      h1 h2 h3 h4
    by (simp add: NewTaskRepository_def)
qed

section \<open>Claims about the repository\<close>



text \<open>
  C6, as the claim states it, fails where the product overflows: the request
  \<^verbatim>\<open>page=4611686018427387905&per_page=4\<close> asks for the rows from offset \<open>2 ^ 64\<close>, of
  which a table of two rows has none, but Go's \<^verbatim>\<open>(query.Page - 1) * query.PerPage\<close> is
  0 and \<^verbatim>\<open>List\<close> returns the first page.
\<close>

theorem List_offset_overflow_counterexample:
  "ParseQuery [(''page'', [''4611686018427387905'']), (''per_page'', [''4''])] = overflow_query
   \<and> fst (postgres_Task_List overflow_query two_tasks) = Inr ([task_A, task_B], 2)
   \<and> take (nat (PerPage overflow_query))
        (drop (nat ((Page overflow_query - 1) * PerPage overflow_query))
           (filter (exact_match (Filter overflow_query)) (table two_tasks))) = []"
  by (simp add: ParseQuery_eval overflow_query_def List_eval db_eval example_eval exact_match_def)

text \<open>
  C6, amended. When \<^verbatim>\<open>List\<close> succeeds for a query with page \<open>P\<close> and page size \<open>S\<close>, the
  tasks it returns are the rows matching the filters from the offset on, at most \<open>S\<close> of
  them, where the offset is \<open>(P - 1) * S\<close> computed in Go's 64-bit \<^verbatim>\<open>int\<close>, which is
  \<open>(P - 1) * S\<close> itself whenever that product fits in 64 bits; and the total it returns is
  the number of all rows matching the filters, whatever \<open>P\<close> and \<open>S\<close> are.
\<close>

theorem List_pagination:
  assumes "postgres_Task_List q d = (Inr (ts, n), d')"
  shows "ts = take (nat (PerPage q)) (drop (nat (page_offset q))
                (filter (exact_match (Filter q)) (table d)))
       \<and> int (length ts) \<le> PerPage q
       \<and> n = int (length (filter (exact_match (Filter q)) (table d)))
       \<and> (MinInt64 \<le> (Page q - 1) * PerPage q \<and> (Page q - 1) * PerPage q \<le> MaxInt64
            \<longrightarrow> page_offset q = (Page q - 1) * PerPage q)
       \<and> (Filter q' = Filter q \<and> postgres_Task_List q' d = (Inr (ts', n'), d'') \<longrightarrow> n' = n)"
proof -
  note s = postgres_Task_List_success [OF assms]
  have len: "int (length ts) \<le> PerPage q" using s(1) s(3) by simp
  have off: "page_offset q = (Page q - 1) * PerPage q"
    if "MinInt64 \<le> (Page q - 1) * PerPage q \<and> (Page q - 1) * PerPage q \<le> MaxInt64"
    using that by (simp add: page_offset_def int64_wrap_mult_left int64_wrap_id)
  have same: "n' = n"
    if "Filter q' = Filter q \<and> postgres_Task_List q' d = (Inr (ts', n'), d'')"
  proof -
    from that have run': "postgres_Task_List q' d = (Inr (ts', n'), d'')" by simp
    have "n' = int (length (filter (exact_match (Filter q')) (table d)))"
      by (rule postgres_Task_List_success(2) [OF run'])
    with that s(2) show ?thesis by simp
  qed
  from s(1) len s(2) off same show ?thesis by blast
qed

theorem List_pagination_witness:
  "postgres_Task_List second_page two_tasks = (Inr ([task_B], 2), two_tasks)
   \<and> page_offset second_page = 1
   \<and> [task_B] = take (nat (PerPage second_page)) (drop (nat (page_offset second_page))
                (filter (exact_match (Filter second_page)) (table two_tasks)))
   \<and> int (length [task_B]) \<le> PerPage second_page
   \<and> (2::int) = int (length (filter (exact_match (Filter second_page)) (table two_tasks)))
   \<and> MinInt64 \<le> (Page second_page - 1) * PerPage second_page
   \<and> (Page second_page - 1) * PerPage second_page \<le> MaxInt64
   \<and> Filter (done_query\<lparr>Filter := []\<rparr>) = Filter second_page
   \<and> postgres_Task_List (done_query\<lparr>Filter := []\<rparr>) two_tasks
        = (Inr ([task_A, task_B], 2), two_tasks)"
proof -
  have run: "postgres_Task_List second_page two_tasks = (Inr ([task_B], 2), two_tasks)"
    by (simp add: second_page_def List_eval db_eval example_eval)
  have run': "postgres_Task_List (done_query\<lparr>Filter := []\<rparr>) two_tasks
        = (Inr ([task_A, task_B], 2), two_tasks)"
    by (simp add: done_query_def List_eval db_eval example_eval)
  show ?thesis
    using List_pagination [OF run, where q' = "done_query\<lparr>Filter := []\<rparr>"
        and ts' = "[task_A, task_B]" and n' = 2 and d'' = two_tasks] run run'
    by (simp add: second_page_def MinInt64_def MaxInt64_def)
qed

text \<open>
  C9. \<^verbatim>\<open>List\<close> applies conditions for the filter fields \<^verbatim>\<open>title\<close>, \<^verbatim>\<open>status\<close> and
  \<^verbatim>\<open>assignee_id\<close> only: setting or deleting a filter entry with any other key leaves
  its whole result unchanged, the result is that of the entries for the three fields
  alone, and when it succeeds every task returned matches those entries exactly and the
  total counts the rows that do.
\<close>

theorem List_filter_restriction:
  assumes "f \<noteq> ''title''" and "f \<noteq> ''status''" and "f \<noteq> ''assignee_id''"
  shows "postgres_Task_List (q\<lparr>Filter := AList.update f v (Filter q)\<rparr>) d = postgres_Task_List q d
       \<and> postgres_Task_List (q\<lparr>Filter := AList.delete f (Filter q)\<rparr>) d = postgres_Task_List q d
       \<and> postgres_Task_List (q\<lparr>Filter := filter filterable (Filter q)\<rparr>) d = postgres_Task_List q d
       \<and> (postgres_Task_List q d = (Inr (ts, n), d') \<longrightarrow>
             list_all (exact_match (Filter q)) ts
             \<and> n = int (length (filter (exact_match (Filter q)) (table d))))"
proof -
  from assms have nf: "\<not> filterable (f, v)" by (simp add: filterable_def)
  have a: "postgres_Task_List (q\<lparr>Filter := AList.update f v (Filter q)\<rparr>) d
         = postgres_Task_List q d"
    by (rule postgres_Task_List_cong) (simp_all add: filterable_update [OF nf])
  have b: "postgres_Task_List (q\<lparr>Filter := AList.delete f (Filter q)\<rparr>) d
         = postgres_Task_List q d"
    by (rule postgres_Task_List_cong) (simp_all add: filterable_delete [OF nf])
  have c: "postgres_Task_List (q\<lparr>Filter := filter filterable (Filter q)\<rparr>) d
         = postgres_Task_List q d"
    by (rule postgres_Task_List_cong) simp_all
  have e: "list_all (exact_match (Filter q)) ts
         \<and> n = int (length (filter (exact_match (Filter q)) (table d)))"
    if run: "postgres_Task_List q d = (Inr (ts, n), d')"
  proof -
    note s = postgres_Task_List_success [OF run]
    have "set ts \<subseteq> set (filter (exact_match (Filter q)) (table d))"
      unfolding s(1) by (meson set_take_subset set_drop_subset subset_trans)
    then have "list_all (exact_match (Filter q)) ts" by (auto simp: list_all_iff)
    with s(2) show ?thesis by simp
  qed
  from a b c e show ?thesis by blast
qed

theorem List_filter_restriction_witness:
  "''priority'' \<noteq> ''title'' \<and> ''priority'' \<noteq> ''status'' \<and> ''priority'' \<noteq> ''assignee_id''
   \<and> postgres_Task_List (done_query\<lparr>Filter := AList.update ''priority'' ''high'' (Filter done_query)\<rparr>)
        two_tasks = (Inr ([task_B], 1), two_tasks)
   \<and> postgres_Task_List done_query two_tasks = (Inr ([task_B], 1), two_tasks)
   \<and> list_all (exact_match (Filter done_query)) [task_B]
   \<and> (1::int) = int (length (filter (exact_match (Filter done_query)) (table two_tasks)))"
proof -
  have run: "postgres_Task_List done_query two_tasks = (Inr ([task_B], 1), two_tasks)"
    by (simp add: done_query_def List_eval db_eval example_eval)
  show ?thesis
    using List_filter_restriction [where f = "''priority''" and q = done_query and v = "''high''"
        and d = two_tasks and ts = "[task_B]" and n = 1 and d' = two_tasks]
      run
    by simp
qed

text \<open>
  C10. \<^verbatim>\<open>Update\<close> writes the title, the description, the status and \<^verbatim>\<open>updated_at\<close> of
  the rows with the task's id, when the database executes the statement, and nothing
  else: every row keeps its id, its assignee and its creation time, also when the task
  passed in carries another assignee, as the one built by the handler \<^verbatim>\<open>TaskUpdate\<close>
  from the request does.
\<close>

theorem Update_frame:
  "table (snd (postgres_Task_Update t d)) =
     (if failing d = None
      then map (\<lambda>r. if ID r = ID t
                     then r\<lparr>Title := Title t, Description := Description t,
                            Status := Status t, UpdatedAt := clock d\<rparr>
                     else r) (table d)
      else table d)
   \<and> map ID (table (snd (postgres_Task_Update t d))) = map ID (table d)
   \<and> map AssigneeID (table (snd (postgres_Task_Update t d))) = map AssigneeID (table d)
   \<and> map CreatedAt (table (snd (postgres_Task_Update t d))) = map CreatedAt (table d)
   \<and> table (snd (postgres_Task_Update (t\<lparr>AssigneeID := a\<rparr>) d))
       = table (snd (postgres_Task_Update t d))
   \<and> map AssigneeID
        (table (fst (snd (TaskUpdate (NewTaskService NewTaskRepository) taskIDParam body (d, m)))))
       = map AssigneeID (table d)"
proof -
  have a: "table (snd (postgres_Task_Update t d)) =
     (if failing d = None
      then map (\<lambda>r. if ID r = ID t
                     then r\<lparr>Title := Title t, Description := Description t,
                            Status := Status t, UpdatedAt := clock d\<rparr>
                     else r) (table d)
      else table d)"
    by (simp add: postgres_Task_Update_table written_def)
  have b: "table (snd (postgres_Task_Update (t\<lparr>AssigneeID := a\<rparr>) d))
       = table (snd (postgres_Task_Update t d))"
    by (simp add: postgres_Task_Update_table written_def)
  from a b postgres_Task_Update_frame [of t d] TaskUpdate_frame [of taskIDParam body d m]
  show ?thesis by blast
qed

theorem Update_frame_witness:
  "failing two_tasks = None
   \<and> postgres_Task_Update reassign_A two_tasks =
       (Inr (task_A\<lparr>Title := ''T1 renamed'', Description := ''changed'', Status := ''done'',
                    UpdatedAt := 30\<rparr>),
        two_tasks\<lparr>table := [task_A\<lparr>Title := ''T1 renamed'', Description := ''changed'',
                                    Status := ''done'', UpdatedAt := 30\<rparr>, task_B]\<rparr>)
   \<and> AssigneeID reassign_A = 99
   \<and> map AssigneeID (table (snd (postgres_Task_Update reassign_A two_tasks))) = [5, 7]
   \<and> fst (TaskUpdate (NewTaskService NewTaskRepository) ''1''
        (Some \<lparr>req_Title = ''T1 renamed'', req_Description = ''changed'', req_Status = ''done'',
               req_AssigneeID = 99\<rparr>) (two_tasks, no_metrics))
       = JSON 200 (GetSuccessResponse (TaskData
           (task_A\<lparr>Title := ''T1 renamed'', Description := ''changed'', Status := ''done'',
                   UpdatedAt := 30\<rparr>)))
   \<and> map AssigneeID (table (fst (snd (TaskUpdate (NewTaskService NewTaskRepository) ''1''
        (Some \<lparr>req_Title = ''T1 renamed'', req_Description = ''changed'', req_Status = ''done'',
               req_AssigneeID = 99\<rparr>) (two_tasks, no_metrics))))) = [5, 7]"
proof -
  have h: "failing two_tasks = None" by (simp add: failing_def example_eval)
  have run: "postgres_Task_Update reassign_A two_tasks =
       (Inr (task_A\<lparr>Title := ''T1 renamed'', Description := ''changed'', Status := ''done'',
                    UpdatedAt := 30\<rparr>),
        two_tasks\<lparr>table := [task_A\<lparr>Title := ''T1 renamed'', Description := ''changed'',
                                    Status := ''done'', UpdatedAt := 30\<rparr>, task_B]\<rparr>)"
    by (simp add: postgres_Task_Update_def reassign_A_def db_eval example_eval)
  have handler: "fst (TaskUpdate (NewTaskService NewTaskRepository) ''1''
        (Some \<lparr>req_Title = ''T1 renamed'', req_Description = ''changed'', req_Status = ''done'',
               req_AssigneeID = 99\<rparr>) (two_tasks, no_metrics))
       = JSON 200 (GetSuccessResponse (TaskData
           (task_A\<lparr>Title := ''T1 renamed'', Description := ''changed'', Status := ''done'',
                   UpdatedAt := 30\<rparr>)))"
    using run
    by (simp add: TaskUpdate_def ParseInt_def Atoi_eval ShouldBindJSON_UpdateTaskRequest_def
          NewTaskService_def NewTaskRepository_def service_Task_Update_def reassign_A_def)
  show ?thesis
    using Update_frame [of reassign_A two_tasks 99 "''1''"
        "Some \<lparr>req_Title = ''T1 renamed'', req_Description = ''changed'', req_Status = ''done'',
               req_AssigneeID = 99\<rparr>" no_metrics] h run handler
    by (simp add: reassign_A_def example_eval)
qed

section \<open>Claims about parsing a list request\<close>

text \<open>
  C7, as the claim states it, fails: \<^verbatim>\<open>ParseQuery\<close> replaces only the value 0, so a
  request with \<^verbatim>\<open>page=-5\<close> is parsed to page number \<open>-5\<close>, which is below 1.
\<close>

theorem ParseQuery_negative_page_counterexample:
  "\<not> (1 \<le> Page (ParseQuery [(''page'', [''-5''])]))"
  by (simp add: ParseQuery_eval)

text \<open>
  C7, amended. Every query produced by parsing a list request has a page number and a
  page size different from 0. When the request omits \<^verbatim>\<open>page\<close> the page number is 1,
  and when it omits \<^verbatim>\<open>per_page\<close> the page size is 20. The page number (the page size)
  is at least 1 whenever the value given for \<^verbatim>\<open>page\<close> (for \<^verbatim>\<open>per_page\<close>) does not
  start with a minus sign; a value of decimal digits denoting a number \<open>n\<close> other than 0
  is parsed to \<open>n\<close>, or to \<open>2 ^ 63 - 1\<close> when \<open>n\<close> is larger. A value that is a minus
  sign followed by decimal digits denoting such an \<open>n\<close> is parsed to \<open>- n\<close>, or to
  \<open>- (2 ^ 63)\<close> when \<open>- n\<close> is smaller, and is then below 1. The parameters of a request
  are a map, so their names are distinct.
\<close>

theorem ParseQuery_pagination:
  "Page (ParseQuery params) \<noteq> 0 \<and> PerPage (ParseQuery params) \<noteq> 0
   \<and> (''page'' \<notin> fst ` set params \<longrightarrow> Page (ParseQuery params) = 1)
   \<and> (''per_page'' \<notin> fst ` set params \<longrightarrow> PerPage (ParseQuery params) = 20)
   \<and> (no_minus ''page'' params \<longrightarrow> 1 \<le> Page (ParseQuery params))
   \<and> (no_minus ''per_page'' params \<longrightarrow> 1 \<le> PerPage (ParseQuery params))
   \<and> (distinct (map fst params) \<and> ds \<noteq> [] \<and> list_all is_digit ds \<and> decimal ds 0 \<noteq> 0 \<longrightarrow>
        (map_of params ''page'' = Some (ds # vs) \<longrightarrow>
           Page (ParseQuery params) = min MaxInt64 (decimal ds 0))
      \<and> (map_of params ''page'' = Some ((CHR ''-'' # ds) # vs) \<longrightarrow>
           Page (ParseQuery params) = max MinInt64 (- decimal ds 0)
           \<and> Page (ParseQuery params) < 1)
      \<and> (map_of params ''per_page'' = Some (ds # vs) \<longrightarrow>
           PerPage (ParseQuery params) = min MaxInt64 (decimal ds 0))
      \<and> (map_of params ''per_page'' = Some ((CHR ''-'' # ds) # vs) \<longrightarrow>
           PerPage (ParseQuery params) = max MinInt64 (- decimal ds 0)
           \<and> PerPage (ParseQuery params) < 1))"
proof -
  have a: "Page (ParseQuery params) \<noteq> 0" by (simp add: ParseQuery_Page)
  have b: "PerPage (ParseQuery params) \<noteq> 0" by (simp add: ParseQuery_PerPage)
  have c: "Page (ParseQuery params) = 1" if "''page'' \<notin> fst ` set params"
    using fold_ParseQuery_param_Page_absent [OF that, of empty_Query]
    by (simp add: ParseQuery_Page empty_Query_def)
  have d: "PerPage (ParseQuery params) = 20" if "''per_page'' \<notin> fst ` set params"
    using fold_ParseQuery_param_PerPage_absent [OF that, of empty_Query]
    by (simp add: ParseQuery_PerPage empty_Query_def)
  have e: "1 \<le> Page (ParseQuery params)" if "no_minus ''page'' params"
  proof -
    have "0 \<le> Page (fold ParseQuery_param params empty_Query)"
      using that by (rule fold_ParseQuery_param_Page_nonneg) (simp add: empty_Query_def)
    then show ?thesis by (simp add: ParseQuery_Page)
  qed
  have f: "1 \<le> PerPage (ParseQuery params)" if "no_minus ''per_page'' params"
  proof -
    have "0 \<le> PerPage (fold ParseQuery_param params empty_Query)"
      using that by (rule fold_ParseQuery_param_PerPage_nonneg) (simp add: empty_Query_def)
    then show ?thesis by (simp add: ParseQuery_PerPage)
  qed
  have g: "(map_of params ''page'' = Some (ds # vs) \<longrightarrow>
           Page (ParseQuery params) = min MaxInt64 (decimal ds 0))
      \<and> (map_of params ''page'' = Some ((CHR ''-'' # ds) # vs) \<longrightarrow>
           Page (ParseQuery params) = max MinInt64 (- decimal ds 0)
           \<and> Page (ParseQuery params) < 1)
      \<and> (map_of params ''per_page'' = Some (ds # vs) \<longrightarrow>
           PerPage (ParseQuery params) = min MaxInt64 (decimal ds 0))
      \<and> (map_of params ''per_page'' = Some ((CHR ''-'' # ds) # vs) \<longrightarrow>
           PerPage (ParseQuery params) = max MinInt64 (- decimal ds 0)
           \<and> PerPage (ParseQuery params) < 1)"
    if h: "distinct (map fst params)" "ds \<noteq> []" "list_all is_digit ds" "decimal ds 0 \<noteq> 0"
    using Atoi_minus_value [OF h(2,3,4)] Atoi_plain_value [OF h(2,3,4)]
    by (auto simp: ParseQuery_Page_given [OF h(1)] ParseQuery_PerPage_given [OF h(1)])
  from a b c d e f g show ?thesis by blast
qed

theorem ParseQuery_pagination_witness:
  "no_minus ''page'' [(''per_page'', [''5'']), (''status'', [''done''])]
   \<and> no_minus ''per_page'' [(''per_page'', [''5'']), (''status'', [''done''])]
   \<and> ''page'' \<notin> fst ` set [(''per_page'', [''5'']), (''status'', [''done''])]
   \<and> ''per_page'' \<notin> fst ` set [(''page'', [''-9223372036854775809''])]
   \<and> Page (ParseQuery [(''per_page'', [''5'']), (''status'', [''done''])]) = 1
   \<and> PerPage (ParseQuery [(''per_page'', [''5'']), (''status'', [''done''])]) = 5
   \<and> PerPage (ParseQuery [(''page'', [''-9223372036854775809''])]) = 20
   \<and> distinct (map fst [(''page'', [''-9223372036854775809''])])
   \<and> list_all is_digit ''9223372036854775809''
   \<and> decimal ''9223372036854775809'' 0 = 9223372036854775809
   \<and> map_of [(''page'', [''-9223372036854775809''])] ''page'' = Some [''-9223372036854775809'']
   \<and> Page (ParseQuery [(''page'', [''-9223372036854775809''])]) = - 9223372036854775808
   \<and> list_all is_digit ''5'' \<and> decimal ''5'' 0 = 5
   \<and> map_of [(''per_page'', [''5'']), (''status'', [''done''])] ''per_page'' = Some [''5'']
   \<and> distinct (map fst [(''page'', [''3'']), (''per_page'', [''-3''])])
   \<and> list_all is_digit ''3'' \<and> decimal ''3'' 0 = 3
   \<and> map_of [(''page'', [''3'']), (''per_page'', [''-3''])] ''page'' = Some [''3'']
   \<and> map_of [(''page'', [''3'']), (''per_page'', [''-3''])] ''per_page'' = Some [''-3'']
   \<and> Page (ParseQuery [(''page'', [''3'']), (''per_page'', [''-3''])]) = 3
   \<and> PerPage (ParseQuery [(''page'', [''3'']), (''per_page'', [''-3''])]) = - 3"
proof -
  have h1: "list_all is_digit ''9223372036854775809''
      \<and> decimal ''9223372036854775809'' 0 = 9223372036854775809"
    by (simp add: is_digit_def digit_value_def)
  have h2: "list_all is_digit ''5'' \<and> decimal ''5'' 0 = 5"
    by (simp add: is_digit_def digit_value_def)
  have h3: "no_minus ''page'' [(''per_page'', [''5'']), (''status'', [''done''])]
      \<and> no_minus ''per_page'' [(''per_page'', [''5'']), (''status'', [''done''])]"
    by (simp add: no_minus_def minus_sign_def)
  have h4: "list_all is_digit ''3'' \<and> decimal ''3'' 0 = 3"
    by (simp add: is_digit_def digit_value_def)
  show ?thesis
    using ParseQuery_pagination [of "[(''per_page'', [''5'']), (''status'', [''done''])]"
        "''5''" "[]"]
      ParseQuery_pagination [of "[(''page'', [''-9223372036854775809''])]"
        "''9223372036854775809''" "[]"]
      ParseQuery_pagination [of "[(''page'', [''3'']), (''per_page'', [''-3''])]" "''3''" "[]"]
      h1 h2 h3 h4
    by (simp add: MinInt64_def MaxInt64_def)
qed

section \<open>Claims about the handlers\<close>

text \<open>
  C8. For a create request that binds and has no status, the handler calls the
  service's \<^verbatim>\<open>Create\<close> with the status \<^verbatim>\<open>pending\<close>; for a request whose status is set
  and is none of \<^verbatim>\<open>pending\<close>, \<^verbatim>\<open>in_progress\<close>, \<^verbatim>\<open>done\<close>, \<^verbatim>\<open>canceled\<close> (the values
  \<^verbatim>\<open>IsValid\<close> accepts), it answers 400 with status \<^verbatim>\<open>fail\<close> and leaves the state of the
  service, whatever the service is, as it was: \<^verbatim>\<open>Create\<close> is not called.
\<close>

theorem TaskCreate_status:
  "(ShouldBindJSON_CreateTaskRequest body = Inr req \<and> req_Status req = [] \<longrightarrow>
      TaskCreate h body w =
        (case svc_Create h \<lparr>ID = 0, Title = req_Title req, Description = req_Description req,
                             Status = ''pending'', AssigneeID = req_AssigneeID req,
                             CreatedAt = 0, UpdatedAt = 0\<rparr> w of
           (Inl err, w') \<Rightarrow> (JSON 500 InternalServerError, w')
         | (Inr createdTask, w') \<Rightarrow>
             (JSON 201 (GetSuccessResponse (TaskData createdTask)), w')))
   \<and> (req_Status req \<noteq> []
        \<and> req_Status req \<notin> {''pending'', ''in_progress'', ''done'', ''canceled''} \<longrightarrow>
          Code (fst (TaskCreate h (Some req) w)) = 400
          \<and> map_option resp_Status (Body (fst (TaskCreate h (Some req) w))) = Some ''fail''
          \<and> snd (TaskCreate h (Some req) w) = w)
   \<and> (IsValid s \<longleftrightarrow> s \<in> {''pending'', ''in_progress'', ''done'', ''canceled''})"
  using TaskCreate_unset [of body req h w] TaskCreate_invalid [of req h w] IsValid_iff [of s]
  by blast

theorem TaskCreate_status_witness:
  "ShouldBindJSON_CreateTaskRequest (Some unset_request) = Inr unset_request
   \<and> req_Status unset_request = []
   \<and> TaskCreate (NewTaskService (Recorded NewTaskRepository)) (Some unset_request)
        ((two_tasks, []), no_metrics) =
       (JSON 201 (GetSuccessResponse (TaskData
          \<lparr>ID = 3, Title = ''T3'', Description = ''third'', Status = ''pending'',
           AssigneeID = 9, CreatedAt = 30, UpdatedAt = 30\<rparr>)),
        (two_tasks\<lparr>table := [task_A, task_B,
             \<lparr>ID = 3, Title = ''T3'', Description = ''third'', Status = ''pending'',
              AssigneeID = 9, CreatedAt = 30, UpdatedAt = 30\<rparr>], next_id := 4\<rparr>,
         [Call_Create \<lparr>ID = 0, Title = ''T3'', Description = ''third'', Status = ''pending'',
                       AssigneeID = 9, CreatedAt = 0, UpdatedAt = 0\<rparr>]),
        \<lparr>TasksCount = 1, RequestLatency = [(''POST'', ''success'', ''task_service'')],
         RequestCount = []\<rparr>)
   \<and> req_Status invalid_request \<noteq> []
   \<and> req_Status invalid_request \<notin> {''pending'', ''in_progress'', ''done'', ''canceled''}
   \<and> Code (fst (TaskCreate (NewTaskService (Recorded NewTaskRepository)) (Some invalid_request)
          ((two_tasks, []), no_metrics))) = 400
   \<and> snd (TaskCreate (NewTaskService (Recorded NewTaskRepository)) (Some invalid_request)
          ((two_tasks, []), no_metrics)) = ((two_tasks, []), no_metrics)
   \<and> IsValid ''canceled''"
proof -
  have h1: "ShouldBindJSON_CreateTaskRequest (Some unset_request) = Inr unset_request
            \<and> req_Status unset_request = []"
    by (simp add: ShouldBindJSON_CreateTaskRequest_def unset_request_def)
  have h2: "req_Status invalid_request \<noteq> []
            \<and> req_Status invalid_request \<notin> {''pending'', ''in_progress'', ''done'', ''canceled''}"
    by (simp add: invalid_request_def)
  have create: "svc_Create (NewTaskService (Recorded NewTaskRepository))
        \<lparr>ID = 0, Title = ''T3'', Description = ''third'', Status = ''pending'',
         AssigneeID = 9, CreatedAt = 0, UpdatedAt = 0\<rparr> ((two_tasks, []), no_metrics) =
       (Inr \<lparr>ID = 3, Title = ''T3'', Description = ''third'', Status = ''pending'',
             AssigneeID = 9, CreatedAt = 30, UpdatedAt = 30\<rparr>,
        (two_tasks\<lparr>table := [task_A, task_B,
             \<lparr>ID = 3, Title = ''T3'', Description = ''third'', Status = ''pending'',
              AssigneeID = 9, CreatedAt = 30, UpdatedAt = 30\<rparr>], next_id := 4\<rparr>,
         [Call_Create \<lparr>ID = 0, Title = ''T3'', Description = ''third'', Status = ''pending'',
                       AssigneeID = 9, CreatedAt = 0, UpdatedAt = 0\<rparr>]),
        \<lparr>TasksCount = 1, RequestLatency = [(''POST'', ''success'', ''task_service'')],
         RequestCount = []\<rparr>)"
    by (simp add: service_eval postgres_Task_Create_def db_eval example_eval)
  show ?thesis
    using TaskCreate_status [of "Some unset_request" unset_request
        "NewTaskService (Recorded NewTaskRepository)" "((two_tasks, []), no_metrics)"
        "''canceled''"]
      TaskCreate_status [of "Some invalid_request" invalid_request
        "NewTaskService (Recorded NewTaskRepository)" "((two_tasks, []), no_metrics)"
        "''canceled''"]
      h1 h2 create
    by (simp add: unset_request_def)
qed

end
